theory Spec2Isabelle
  imports Main "HOL-Library.AList"
begin

section \<open>The RAG document assistant: the Streamlit script \<open>app.py\<close>\<close>

text \<open>
  \<open>app.py\<close> is a Streamlit script: the whole file runs from top to bottom on every
  interaction, reading the widgets' current values and mutating four pieces of state
  that outlive a run: the upload directory \<open>data\<close>, the credential file \<open>.env\<close>, the
  process environment \<open>os.environ\<close> and \<open>st.session_state\<close>. The model passes that state
  explicitly (record \<open>world\<close>) and logs what a run renders and which helper it calls
  (field \<open>trace\<close>).

  An exception of the source (a subclass of Python's \<open>Exception\<close>) is a value of type
  \<open>error\<close> carrying the text that \<open>str(e)\<close> yields. Whether an operating system call or
  a backend module raises is not decided by \<open>app.py\<close>: those verdicts are the fields of the
  record \<open>env\<close>, a parameter of every function of the model.
\<close>

subsection \<open>Data\<close>

datatype error = Exception string

fun msg :: "error \<Rightarrow> string" where
  "msg (Exception s) = s"

datatype outcome = Returned | Raised error

type_synonym bytes = string

type_synonym chunk = string

text \<open>
  An entry of the upload directory. \<open>SymLink b\<close> is a symbolic link; \<open>b\<close> tells whether it
  resolves to a regular file (what \<open>os.path.isfile\<close> asks, since it follows links).
  \<open>Special\<close> is an entry of any other kind: a FIFO, a socket, a device. Line 48 asks
  \<open>isfile\<close> or \<open>islink\<close>, which holds of every link, so \<open>b\<close> has no bearing on what the
  loop deletes.
\<close>

datatype entry = RegularFile bytes | SymLink bool | Directory | Special

text \<open>
  What the path \<open>data\<close> names: nothing, a directory with its listing in the order
  \<open>os.listdir\<close> returns it, or something that is not a directory.
\<close>

datatype node = Absent | Dir "(string \<times> entry) list" | NonDir

fun entries_of :: "node \<Rightarrow> (string \<times> entry) list" where
  "entries_of (Dir es) = es"
| "entries_of Absent = []"
| "entries_of NonDir = []"

text \<open>
  Streamlit's \<open>UploadedFile\<close>: \<open>getbuffer\<close> is the content and \<open>name\<close> the file name the
  client sent. A browser sends a base name, but neither Streamlit nor \<open>app.py\<close> restricts
  the name to a single path component.
\<close>

record uploaded_file =
  name :: string
  getbuffer :: bytes

text \<open>
  What a run renders (\<open>st.error\<close>, \<open>st.text_input\<close>, ...) and the calls the properties
  speak about. Labels and messages are the source's literals without their emoji prefix;
  \<open>st.set_page_config\<close> and the \<open>st.spinner\<close> blocks, which only decorate the page, are
  left out.
\<close>

datatype event =
    St_error string
  | St_warning string
  | St_info string
  | St_success string
  | St_write string
  | St_markdown string
  | St_header string
  | St_subheader string
  | St_title string
  | St_text_input string
  | St_button string
  | St_file_uploader string
  | Call_save_api_key string
  | Call_RAGSearch
  | Call_search_and_summarize string nat

record world =
  data_dir :: node
  env_file :: "(string \<rightharpoonup> string) option"
  environ :: "string \<rightharpoonup> string"
  vector_store_ready :: "bool option"
  trace :: "event list"

text \<open>
  \<open>env_file\<close> is \<open>None\<close> while \<open>.env\<close> does not exist; \<open>vector_store_ready\<close> is \<open>None\<close> while
  the key is not in \<open>st.session_state\<close>.

  The verdicts of the operating system (\<open>Some e\<close>: the call raises \<open>e\<close>) and the imported
  modules \<open>src.data_loader\<close>, \<open>src.vectorstore\<close> and \<open>src.search\<close>, which are not part of
  \<open>app.py\<close>. The backend is taken not to touch the four pieces of state of \<open>world\<close>.

  \<open>resolve p\<close> is the operating system's resolution of a path that the listing of the
  upload directory does not settle by itself, because it goes through a symbolic link or
  is built from a name with separators: \<open>Some c\<close> when bytes written at \<open>p\<close> end up in the
  file \<open>c\<close> directly inside the upload directory, \<open>None\<close> when they end up anywhere else.
\<close>

record env =
  makedirs_err :: "string \<Rightarrow> error option"
  listdir_err :: "string \<Rightarrow> error option"
  unlink_err :: "string \<Rightarrow> error option"
  open_err :: "string \<Rightarrow> error option"
  resolve :: "string \<Rightarrow> string option"
  set_key_err :: "string \<Rightarrow> error option"
  putenv_err :: "string \<Rightarrow> string \<Rightarrow> error option"
  load_all_documents :: "string \<Rightarrow> node \<Rightarrow> error + chunk list"
  FaissVectorStore :: "string \<Rightarrow> error option"
  build_from_documents :: "string \<Rightarrow> chunk list \<Rightarrow> error option"
  RAGSearch :: "error option"
  search_and_summarize :: "string \<Rightarrow> nat \<Rightarrow> error + string"

text \<open>The widgets' values in one run of the script.\<close>

record inputs =
  api_key_input :: string
  save_clicked :: bool
  uploaded :: "uploaded_file option"
  process_clicked :: bool
  query :: string
  answer_clicked :: bool

subsection \<open>Plumbing\<close>

definition emit :: "event \<Rightarrow> world \<Rightarrow> world" where
  "emit e w = w\<lparr>trace := trace w @ [e]\<rparr>"

text \<open>Statement after statement: a raised exception skips the rest.\<close>

fun and_then :: "outcome \<times> world \<Rightarrow> (world \<Rightarrow> outcome \<times> world) \<Rightarrow> outcome \<times> world" where
  "and_then (Returned, w) k = k w"
| "and_then (Raised e, w) k = (Raised e, w)"

text \<open>\<open>try: ... except Exception as e: handler\<close>.\<close>

fun try_except :: "outcome \<times> world \<Rightarrow> (error \<Rightarrow> world \<Rightarrow> world) \<Rightarrow> outcome \<times> world" where
  "try_except (Returned, w) h = (Returned, w)"
| "try_except (Raised e, w) h = (Returned, h e w)"

text \<open>The events a run added to the trace.\<close>

definition new_events :: "world \<Rightarrow> world \<Rightarrow> event list" where
  "new_events w w' = drop (length (trace w)) (trace w')"

text \<open>\<open>os.path.join\<close> on POSIX, for two components.\<close>

definition path_join :: "string \<Rightarrow> string \<Rightarrow> string" where
  "path_join a b =
     (if b \<noteq> [] \<and> hd b = CHR ''/'' then b
      else if a = [] \<or> last a = CHR ''/'' then a @ b
      else a @ ''/'' @ b)"

text \<open>Decimal digits of a number, as an f-string prints \<open>len(docs)\<close>.\<close>

fun str_nat :: "nat \<Rightarrow> string" where
  "str_nat n =
     (if n < 10 then [char_of (48 + n)]
      else str_nat (n div 10) @ [char_of (48 + n mod 10)])"

subsection \<open>\<open>save_api_key\<close> (lines 20 to 33)\<close>

text \<open>
  \<open>set_key\<close> of python-dotenv stores one key of the file, creating the file when it is
  missing; \<open>load_dotenv\<close> copies the file's keys into the environment, keeping a variable
  that is already set.
\<close>

definition set_key :: "(string \<rightharpoonup> string) option \<Rightarrow> string \<Rightarrow> string \<Rightarrow> (string \<rightharpoonup> string) option" where
  "set_key file k v = Some ((case file of None \<Rightarrow> Map.empty | Some m \<Rightarrow> m)(k \<mapsto> v))"

definition load_dotenv :: "world \<Rightarrow> world" where
  "load_dotenv w =
     (case env_file w of
        None \<Rightarrow> w
      | Some m \<Rightarrow> w\<lparr>environ := m ++ environ w\<rparr>)"

definition save_api_key :: "env \<Rightarrow> string \<Rightarrow> world \<Rightarrow> outcome \<times> world" where
  "save_api_key E key w =
     (let env_file_path = ''.env'' in
      and_then
        (if env_file w = None then
           (case open_err E env_file_path of
              Some e \<Rightarrow> (Raised e, w)
            | None \<Rightarrow> (Returned, w\<lparr>env_file := Some Map.empty\<rparr>))
         else (Returned, w))
        (\<lambda>w1. and_then
           (case set_key_err E env_file_path of
              Some e \<Rightarrow> (Raised e, w1)
            | None \<Rightarrow> (Returned, w1\<lparr>env_file := set_key (env_file w1) ''GROQ_API_KEY'' key\<rparr>))
           (\<lambda>w2. case putenv_err E ''GROQ_API_KEY'' key of
              Some e \<Rightarrow> (Raised e, w2)
            | None \<Rightarrow> (Returned, w2\<lparr>environ := (environ w2)(''GROQ_API_KEY'' \<mapsto> key)\<rparr>))))"

subsection \<open>\<open>save_uploaded_file\<close> (lines 35 to 56)\<close>

fun isfile :: "entry option \<Rightarrow> bool" where
  "isfile (Some (RegularFile c)) = True"
| "isfile (Some (SymLink b)) = b"
| "isfile (Some Directory) = False"
| "isfile (Some Special) = False"
| "isfile None = False"

fun islink :: "entry option \<Rightarrow> bool" where
  "islink (Some (SymLink b)) = True"
| "islink (Some (RegularFile c)) = False"
| "islink (Some Directory) = False"
| "islink (Some Special) = False"
| "islink None = False"

definition lookup_entry :: "world \<Rightarrow> string \<Rightarrow> entry option" where
  "lookup_entry w filename = map_of (entries_of (data_dir w)) filename"

text \<open>\<open>os.unlink\<close> when the operating system allows it: the entry leaves the listing.\<close>

fun unlink :: "string \<Rightarrow> node \<Rightarrow> node" where
  "unlink filename (Dir es) = Dir (AList.delete filename es)"
| "unlink filename Absent = Absent"
| "unlink filename NonDir = NonDir"

text \<open>
  The loop of lines 45 to 51 over the listing taken before the first deletion. A failed
  \<open>os.unlink\<close> is caught, reported with \<open>st.error\<close>, and the loop goes on.
\<close>

fun clear_loop :: "env \<Rightarrow> string \<Rightarrow> string list \<Rightarrow> world \<Rightarrow> world" where
  "clear_loop E save_dir [] w = w"
| "clear_loop E save_dir (filename # rest) w =
     (let file_path = path_join save_dir filename in
      clear_loop E save_dir rest
        (if isfile (lookup_entry w filename) \<or> islink (lookup_entry w filename) then
           (case unlink_err E file_path of
              None \<Rightarrow> w\<lparr>data_dir := unlink filename (data_dir w)\<rparr>
            | Some e \<Rightarrow>
                emit (St_error (''Failed to delete '' @ file_path @ ''. Reason: '' @ msg e)) w)
         else w))"

text \<open>
  Lines 53 to 55: \<open>open\<close> in mode \<open>wb\<close> and the write. Where the bytes end up depends on
  the joined path. A name that is a single path component names an entry of the upload
  directory: a missing one is created, a regular file is truncated and rewritten, a
  symbolic link that survived the loop is followed, a special file takes the bytes
  itself. Any other name leads wherever the operating system resolves it.
\<close>

definition plain_name :: "string \<Rightarrow> bool" where
  "plain_name n = (n \<noteq> [] \<and> n \<noteq> ''.'' \<and> n \<noteq> ''..'' \<and> CHR ''/'' \<notin> set n)"

definition landing :: "env \<Rightarrow> string \<Rightarrow> (string \<times> entry) list \<Rightarrow> string \<Rightarrow> string option" where
  "landing E save_dir es n =
     (if plain_name n then
        (case map_of es n of
           None \<Rightarrow> Some n
         | Some (RegularFile c) \<Rightarrow> Some n
         | Some (SymLink b) \<Rightarrow> resolve E (path_join save_dir n)
         | Some Directory \<Rightarrow> None
         | Some Special \<Rightarrow> None)
      else resolve E (path_join save_dir n))"

text \<open>
  The listing once the bytes \<open>b\<close> have been written to the entry \<open>c\<close>: \<open>open\<close> creates or
  rewrites a regular file, it never replaces an entry of another kind.
\<close>

definition write_entry :: "string \<Rightarrow> bytes \<Rightarrow> (string \<times> entry) list \<Rightarrow> (string \<times> entry) list" where
  "write_entry c b es =
     (case map_of es c of
        None \<Rightarrow> AList.update c (RegularFile b) es
      | Some (RegularFile old) \<Rightarrow> AList.update c (RegularFile b) es
      | Some (SymLink l) \<Rightarrow> es
      | Some Directory \<Rightarrow> es
      | Some Special \<Rightarrow> es)"

definition written :: "env \<Rightarrow> string \<Rightarrow> uploaded_file \<Rightarrow> (string \<times> entry) list \<Rightarrow> (string \<times> entry) list" where
  "written E save_dir f es =
     (case landing E save_dir es (name f) of
        None \<Rightarrow> es
      | Some c \<Rightarrow> write_entry c (getbuffer f) es)"

text \<open>
  The joined path is a directory by the listing alone: \<open>data/\<close>, \<open>data/.\<close>, \<open>data/..\<close> or
  a subdirectory. \<open>quoted\<close> is how \<open>str(e)\<close> prints a path without quotes or backslashes.
\<close>

definition opens_directory :: "string \<Rightarrow> (string \<times> entry) list \<Rightarrow> bool" where
  "opens_directory n es = (n = [] \<or> n = ''.'' \<or> n = ''..'' \<or> map_of es n = Some Directory)"

definition quoted :: "string \<Rightarrow> string" where
  "quoted s = CHR 0x27 # s @ [CHR 0x27]"

text \<open>
  \<open>open\<close> raises on a path with a NUL character and on a directory; whether it raises
  otherwise (no permission, a missing parent directory, a link that leads to a directory)
  is the verdict \<open>open_err\<close>.
\<close>

definition write_upload :: "env \<Rightarrow> string \<Rightarrow> uploaded_file \<Rightarrow> world \<Rightarrow> outcome \<times> world" where
  "write_upload E save_dir f w =
     (let file_path = path_join save_dir (name f);
          es = entries_of (data_dir w)
      in if CHR 0x00 \<in> set file_path then
           (Raised (Exception ''embedded null byte''), w)
         else if opens_directory (name f) es then
           (Raised (Exception (''[Errno 21] Is a directory: '' @ quoted file_path)), w)
         else
           (case open_err E file_path of
              Some e \<Rightarrow> (Raised e, w)
            | None \<Rightarrow> (Returned, w\<lparr>data_dir := Dir (written E save_dir f es)\<rparr>)))"

text \<open>
  The world's \<open>data_dir\<close> is the node at \<open>save_dir\<close>; the only call passes the default
  \<open>data\<close>. When the function returns, it returns \<open>save_dir\<close>.
\<close>

definition save_uploaded_file :: "env \<Rightarrow> uploaded_file \<Rightarrow> string \<Rightarrow> world \<Rightarrow> outcome \<times> world" where
  "save_uploaded_file E f save_dir w =
     and_then
       (if data_dir w = Absent then
          (case makedirs_err E save_dir of
             Some e \<Rightarrow> (Raised e, w)
           | None \<Rightarrow> (Returned, w\<lparr>data_dir := Dir []\<rparr>))
        else (Returned, w))
       (\<lambda>w1. case data_dir w1 of
          Absent \<Rightarrow> (Raised (Exception (''[Errno 2] No such file or directory: '' @ quoted save_dir)), w1)
        | NonDir \<Rightarrow> (Raised (Exception (''[Errno 20] Not a directory: '' @ quoted save_dir)), w1)
        | Dir es \<Rightarrow>
            (case listdir_err E save_dir of
               Some e \<Rightarrow> (Raised e, w1)
             | None \<Rightarrow> write_upload E save_dir f (clear_loop E save_dir (map fst es) w1)))"

subsection \<open>The sidebar (lines 59 to 96)\<close>

text \<open>Lines 66 to 70: what the click on the button \<open>Save API Key\<close> runs.\<close>

definition save_api_key_action :: "env \<Rightarrow> string \<Rightarrow> world \<Rightarrow> outcome \<times> world" where
  "save_api_key_action E key_input w =
     (if key_input \<noteq> [] then
        and_then
          (save_api_key E key_input (emit (Call_save_api_key key_input) w))
          (\<lambda>w1. (Returned, emit (St_success ''API Key saved to .env and environment set!'') w1))
      else (Returned, emit (St_error ''Please enter a valid key.'') w))"

definition sidebar_api_key :: "env \<Rightarrow> inputs \<Rightarrow> world \<Rightarrow> outcome \<times> world" where
  "sidebar_api_key E inp w =
     (let w1 = emit (St_text_input ''Enter Groq API Key'') w;
          w2 = emit (St_button ''Save API Key'') w1
      in if save_clicked inp then save_api_key_action E (api_key_input inp) w2
         else (Returned, w2))"

text \<open>The \<open>try\<close> block of lines 82 to 94.\<close>

definition process_document_body :: "env \<Rightarrow> uploaded_file \<Rightarrow> world \<Rightarrow> outcome \<times> world" where
  "process_document_body E f w =
     and_then (save_uploaded_file E f ''data'' w)
       (\<lambda>w1. case load_all_documents E ''data'' (data_dir w1) of
          Inl e \<Rightarrow> (Raised e, w1)
        | Inr docs \<Rightarrow>
            (let w2 = emit (St_write (''Loaded '' @ str_nat (length docs) @ '' document chunks.'')) w1
             in case FaissVectorStore E ''faiss_store'' of
                  Some e \<Rightarrow> (Raised e, w2)
                | None \<Rightarrow>
                    (case build_from_documents E ''faiss_store'' docs of
                       Some e \<Rightarrow> (Raised e, w2)
                     | None \<Rightarrow>
                         (Returned,
                          emit (St_success ''Vector Store Index Built Successfully!'')
                            (w2\<lparr>vector_store_ready := Some True\<rparr>)))))"

text \<open>Lines 81 to 96: the \<open>try\<close> block with its \<open>except Exception\<close>.\<close>

definition process_document_action :: "env \<Rightarrow> uploaded_file \<Rightarrow> world \<Rightarrow> outcome \<times> world" where
  "process_document_action E f w =
     try_except (process_document_body E f w)
       (\<lambda>e. emit (St_error (''Error processing document: '' @ msg e)))"

definition process_document_button :: "env \<Rightarrow> inputs \<Rightarrow> world \<Rightarrow> outcome \<times> world" where
  "process_document_button E inp w =
     (let w1 = emit (St_file_uploader ''Upload a document'') w
      in case uploaded inp of
           None \<Rightarrow> (Returned, w1)
         | Some f \<Rightarrow>
             (let w2 = emit (St_button ''Process Document'') w1
              in if process_clicked inp then process_document_action E f w2
                 else (Returned, w2)))"

subsection \<open>The main pane (lines 99 to 129)\<close>

text \<open>The \<open>try\<close> block of lines 116 to 124.\<close>

definition get_answer_body :: "env \<Rightarrow> string \<Rightarrow> world \<Rightarrow> outcome \<times> world" where
  "get_answer_body E q w =
     (let w1 = emit Call_RAGSearch w
      in case RAGSearch E of
           Some e \<Rightarrow> (Raised e, w1)
         | None \<Rightarrow>
             (let w2 = emit (Call_search_and_summarize q 3) w1
              in case search_and_summarize E q 3 of
                   Inl e \<Rightarrow> (Raised e, w2)
                 | Inr summary \<Rightarrow>
                     (Returned, emit (St_markdown summary) (emit (St_subheader ''Summary Result:'') w2))))"

text \<open>Lines 113 to 129: what the click on the button \<open>Get Answer\<close> runs.\<close>

definition get_answer_action :: "env \<Rightarrow> string \<Rightarrow> world \<Rightarrow> outcome \<times> world" where
  "get_answer_action E q w =
     (if q \<noteq> [] then
        try_except (get_answer_body E q w)
          (\<lambda>e. emit (St_error (''An error occurred: '' @ msg e)))
      else (Returned, emit (St_warning ''Please enter a query.'') w))"

definition get_answer_button :: "env \<Rightarrow> inputs \<Rightarrow> world \<Rightarrow> outcome \<times> world" where
  "get_answer_button E inp w =
     (let w1 = emit (St_text_input ''Enter your question:'') w;
          w2 = emit (St_button ''Get Answer'') w1
      in if answer_clicked inp then get_answer_action E (query inp) w2
         else (Returned, w2))"

text \<open>\<open>os.getenv\<close> as a condition: set and not the empty string.\<close>

definition credential_present :: "world \<Rightarrow> bool" where
  "credential_present w =
     (case environ w ''GROQ_API_KEY'' of None \<Rightarrow> False | Some v \<Rightarrow> v \<noteq> [])"

definition main_content :: "env \<Rightarrow> inputs \<Rightarrow> world \<Rightarrow> outcome \<times> world" where
  "main_content E inp w =
     (let w1 = emit (St_markdown ''Ask questions based on the documents you uploaded.'')
                 (emit (St_title ''RAG Summarizer'') w);
          w2 = load_dotenv w1
      in if \<not> credential_present w2 then
           (Returned,
            emit (St_warning ''Please enter and save your Groq API Key in the sidebar to proceed.'') w2)
         else
           (case vector_store_ready w2 of
              None \<Rightarrow> (Raised (Exception ''st.session_state has no attribute vector_store_ready''), w2)
            | Some False \<Rightarrow>
                (Returned,
                 emit (St_info ''Please upload and process a document in the sidebar to start.'') w2)
            | Some True \<Rightarrow> get_answer_button E inp w2))"

subsection \<open>One run of the script, and a session\<close>

text \<open>Lines 16 and 17.\<close>

definition init_session_state :: "world \<Rightarrow> world" where
  "init_session_state w =
     (if vector_store_ready w = None then w\<lparr>vector_store_ready := Some False\<rparr> else w)"

definition script :: "env \<Rightarrow> inputs \<Rightarrow> world \<Rightarrow> outcome \<times> world" where
  "script E inp w =
     and_then (sidebar_api_key E inp (emit (St_header ''Configuration'') (init_session_state w)))
       (\<lambda>w1. and_then
          (process_document_button E inp (emit (St_header ''Data Source'') (emit (St_markdown ''---'') w1)))
          (main_content E inp))"

text \<open>
  A session is a sequence of runs, each with the widget values and the verdicts of the
  environment at that moment. An exception that leaves a run ends that run only.
\<close>

fun session :: "(env \<times> inputs) list \<Rightarrow> world \<Rightarrow> world" where
  "session [] w = w"
| "session (r # rs) w = session rs (snd (script (fst r) (snd r) w))"

subsection \<open>Notions the properties are stated with\<close>

definition is_dir :: "string \<times> entry \<Rightarrow> bool" where
  "is_dir ne = (snd ne = Directory)"

text \<open>An entry that line 48 does not select: a subdirectory or a special file.\<close>

definition skipped :: "string \<times> entry \<Rightarrow> bool" where
  "skipped ne = (\<not> (isfile (Some (snd ne)) \<or> islink (Some (snd ne))))"

text \<open>
  An entry the loop of \<open>save_uploaded_file\<close> leaves in place: line 48 does not select
  it, or \<open>os.unlink\<close> raises on it.
\<close>

definition kept :: "env \<Rightarrow> string \<Rightarrow> string \<times> entry \<Rightarrow> bool" where
  "kept E save_dir ne =
     (\<not> (isfile (Some (snd ne)) \<or> islink (Some (snd ne)))
      \<or> unlink_err E (path_join save_dir (fst ne)) \<noteq> None)"

text \<open>The world when the loop of \<open>save_uploaded_file\<close> has run over the listing.\<close>

definition after_loop :: "env \<Rightarrow> string \<Rightarrow> world \<Rightarrow> world" where
  "after_loop E d w =
     clear_loop E d (map fst (entries_of (data_dir w))) (w\<lparr>data_dir := Dir (entries_of (data_dir w))\<rparr>)"

text \<open>The query interface: its two widgets and the two calls behind them.\<close>

fun query_event :: "event \<Rightarrow> bool" where
  "query_event (St_text_input l) = (l = ''Enter your question:'')"
| "query_event (St_button l) = (l = ''Get Answer'')"
| "query_event Call_RAGSearch = True"
| "query_event (Call_search_and_summarize q k) = True"
| "query_event ev = False"

definition other_event :: "event \<Rightarrow> bool" where
  "other_event ev = (\<not> query_event ev)"

text \<open>The later world's trace is the earlier one's followed by events that satisfy \<open>P\<close>.\<close>

definition extends_with :: "(event \<Rightarrow> bool) \<Rightarrow> world \<Rightarrow> world \<Rightarrow> bool" where
  "extends_with P w w' =
     (take (length (trace w)) (trace w') = trace w \<and> length (trace w) \<le> length (trace w')
      \<and> list_all P (new_events w w'))"

text \<open>A new session: nothing in \<open>st.session_state\<close>, nothing rendered yet.\<close>

definition fresh_session :: "world \<Rightarrow> bool" where
  "fresh_session w = (vector_store_ready w = None \<and> trace w = [])"

text \<open>
  The world in which, in the run of \<open>script E inp\<close> from \<open>w\<close>, a click on
  \<open>Process Document\<close> starts the \<open>try\<close> block of line 81.
\<close>

definition process_world :: "env \<Rightarrow> inputs \<Rightarrow> world \<Rightarrow> world" where
  "process_world E inp w =
     emit (St_button ''Process Document'')
       (emit (St_file_uploader ''Upload a document'')
          (emit (St_header ''Data Source'')
             (emit (St_markdown ''---'')
                (snd (sidebar_api_key E inp
                        (emit (St_header ''Configuration'') (init_session_state w)))))))"

text \<open>
  The run of \<open>script E inp\<close> from \<open>w\<close> builds the index: it gets past the sidebar's
  credential part, a file is uploaded, \<open>Process Document\<close> is clicked, and the \<open>try\<close> block
  runs to its end, past \<open>build_from_documents\<close>.
\<close>

definition build_succeeds :: "env \<Rightarrow> inputs \<Rightarrow> world \<Rightarrow> bool" where
  "build_succeeds E inp w =
     (fst (sidebar_api_key E inp (emit (St_header ''Configuration'') (init_session_state w)))
        = Returned
      \<and> process_clicked inp
      \<and> (case uploaded inp of
            None \<Rightarrow> False
          | Some f \<Rightarrow> fst (process_document_body E f (process_world E inp w)) = Returned))"

text \<open>Some run of the session builds the index.\<close>

fun any_build_succeeds :: "(env \<times> inputs) list \<Rightarrow> world \<Rightarrow> bool" where
  "any_build_succeeds [] w = False"
| "any_build_succeeds (r # rs) w =
     (build_succeeds (fst r) (snd r) w
      \<or> any_build_succeeds rs (snd (script (fst r) (snd r) w)))"

subsection \<open>Concrete environments, files and worlds\<close>

definition env_ok :: env where
  "env_ok =
     \<lparr>makedirs_err = (\<lambda>p. None), listdir_err = (\<lambda>p. None), unlink_err = (\<lambda>p. None),
      open_err = (\<lambda>p. None), resolve = (\<lambda>p. None), set_key_err = (\<lambda>p. None), putenv_err = (\<lambda>k v. None),
      load_all_documents = (\<lambda>p n. Inr (map fst (entries_of n))),
      FaissVectorStore = (\<lambda>i. None), build_from_documents = (\<lambda>i docs. None),
      RAGSearch = None, search_and_summarize = (\<lambda>q k. Inr ''summary'')\<rparr>"

definition env_build_fails :: env where
  "env_build_fails = env_ok\<lparr>build_from_documents := (\<lambda>i docs. Some (Exception ''no embeddings''))\<rparr>"

definition env_read_only :: env where
  "env_read_only = env_ok\<lparr>set_key_err := (\<lambda>p. Some (Exception ''[Errno 13] Permission denied''))\<rparr>"

definition env_down :: env where
  "env_down = env_ok\<lparr>set_key_err := (\<lambda>p. Some (Exception ''down'')),
     build_from_documents := (\<lambda>i docs. Some (Exception ''down'')),
     RAGSearch := Some (Exception ''down'')\<rparr>"

definition file_a :: uploaded_file where
  "file_a = \<lparr>name = ''a.txt'', getbuffer = ''AAA''\<rparr>"

definition file_b :: uploaded_file where
  "file_b = \<lparr>name = ''b.md'', getbuffer = ''BB''\<rparr>"

definition file_abs :: uploaded_file where
  "file_abs = \<lparr>name = ''/tmp/x.txt'', getbuffer = ''X''\<rparr>"

definition world_new :: world where
  "world_new =
     \<lparr>data_dir = Absent, env_file = None, environ = Map.empty, vector_store_ready = None,
      trace = []\<rparr>"

definition world_old_file :: world where
  "world_old_file = world_new\<lparr>data_dir := Dir [(''old.pdf'', RegularFile ''%PDF'')],
     vector_store_ready := Some False\<rparr>"

definition world_subdir :: world where
  "world_subdir = world_new\<lparr>data_dir := Dir [(''notes'', Directory), (''old.pdf'', RegularFile ''%PDF'')],
     vector_store_ready := Some False\<rparr>"

definition world_fifo :: world where
  "world_fifo = world_new\<lparr>data_dir := Dir [(''pipe'', Special), (''old.pdf'', RegularFile ''%PDF'')],
     vector_store_ready := Some False\<rparr>"

definition world_ready :: world where
  "world_ready = world_new\<lparr>environ := [''GROQ_API_KEY'' \<mapsto> ''gsk''],
     vector_store_ready := Some True\<rparr>"

definition world_keyed :: world where
  "world_keyed = world_new\<lparr>environ := [''GROQ_API_KEY'' \<mapsto> ''gsk'']\<rparr>"

definition inputs_idle :: inputs where
  "inputs_idle =
     \<lparr>api_key_input = [], save_clicked = False, uploaded = None, process_clicked = False,
      query = [], answer_clicked = False\<rparr>"

definition inputs_process :: inputs where
  "inputs_process = inputs_idle\<lparr>uploaded := Some file_a, process_clicked := True\<rparr>"

section \<open>Properties\<close>

declare str_nat.simps [simp del]

subsection \<open>Sequencing\<close>

lemma emit_fields [simp]:
  "data_dir (emit e w) = data_dir w"
  "env_file (emit e w) = env_file w"
  "environ (emit e w) = environ w"
  "vector_store_ready (emit e w) = vector_store_ready w"
  "trace (emit e w) = trace w @ [e]"
  by (simp_all add: emit_def)

lemma and_then_cases:
  assumes "and_then p k = (out, w')"
  obtains (raised) e where "p = (Raised e, w')" "out = Raised e"
        | (returned) w1 where "p = (Returned, w1)" "k w1 = (out, w')"
proof (cases p)
  case (Pair a w1)
  then show ?thesis using assms that by (cases a) auto
qed

lemma try_except_returns [simp]: "fst (try_except p h) = Returned"
proof (cases p)
  case (Pair a w1)
  then show ?thesis by (cases a) auto
qed

text \<open>
  A relation between the world before and a world after that holds of the first part of a
  sequence and is carried along by the second holds of the sequence.
\<close>

lemma and_then_rel:
  assumes "R w (snd p)" and "\<And>w1. R w w1 \<Longrightarrow> R w (snd (k w1))"
  shows "R w (snd (and_then p k))"
proof (cases p)
  case (Pair a w1)
  then show ?thesis using assms by (cases a) auto
qed

lemma try_except_rel:
  assumes "R w (snd p)" and "\<And>e w1. R w w1 \<Longrightarrow> R w (h e w1)"
  shows "R w (snd (try_except p h))"
proof (cases p)
  case (Pair a w1)
  then show ?thesis using assms by (cases a) auto
qed

subsection \<open>Traces\<close>

lemma new_events_append [simp]: "trace w' = trace w @ evs \<Longrightarrow> new_events w w' = evs"
  by (simp add: new_events_def)

lemma extends_with_iff:
  "extends_with P w w' \<longleftrightarrow> (\<exists>evs. trace w' = trace w @ evs \<and> list_all P evs)"
proof
  assume h: "extends_with P w w'"
  then have "trace w' = trace w @ new_events w w'"
    unfolding extends_with_def new_events_def
    by (metis append_take_drop_id)
  with h show "\<exists>evs. trace w' = trace w @ evs \<and> list_all P evs"
    unfolding extends_with_def by blast
next
  assume "\<exists>evs. trace w' = trace w @ evs \<and> list_all P evs"
  then show "extends_with P w w'"
    by (auto simp: extends_with_def)
qed

lemma extends_with_refl [simp]: "extends_with P w w"
  by (simp add: extends_with_iff)

lemma extends_with_trans:
  "extends_with P w w1 \<Longrightarrow> extends_with P w1 w2 \<Longrightarrow> extends_with P w w2"
  by (auto simp: extends_with_iff)

lemma extends_with_emit: "extends_with P w w1 \<Longrightarrow> P e \<Longrightarrow> extends_with P w (emit e w1)"
  by (auto simp: extends_with_iff)

lemma extends_with_same_trace:
  "extends_with P w w1 \<Longrightarrow> trace w2 = trace w1 \<Longrightarrow> extends_with P w w2"
  by (simp add: extends_with_iff)

lemma extends_with_new_events:
  "extends_with P w w' \<Longrightarrow> list_all P (new_events w w')"
  by (simp add: extends_with_def)

lemma extends_with_split:
  assumes "extends_with P w w1" and "extends_with Q w1 w2"
  shows "new_events w w2 = new_events w w1 @ new_events w1 w2"
proof -
  from assms obtain e1 e2 where "trace w1 = trace w @ e1" "trace w2 = trace w1 @ e2"
    by (auto simp: extends_with_iff)
  then show ?thesis by simp
qed

subsection \<open>\<open>save_api_key\<close>\<close>

lemma save_api_key_frame:
  "data_dir (snd (save_api_key E k w)) = data_dir w"
  "vector_store_ready (snd (save_api_key E k w)) = vector_store_ready w"
  "trace (snd (save_api_key E k w)) = trace w"
  by (auto simp: save_api_key_def Let_def split: option.splits)

lemma save_api_key_returns_iff:
  "fst (save_api_key E k w) = Returned \<longleftrightarrow>
     (env_file w = None \<longrightarrow> open_err E ''.env'' = None) \<and> set_key_err E ''.env'' = None
     \<and> putenv_err E ''GROQ_API_KEY'' k = None"
  by (auto simp: save_api_key_def Let_def split: option.splits)

lemma save_api_key_post:
  assumes "fst (save_api_key E k w) = Returned"
  shows "\<exists>m. env_file (snd (save_api_key E k w)) = Some m \<and> m ''GROQ_API_KEY'' = Some k"
    and "environ (snd (save_api_key E k w)) ''GROQ_API_KEY'' = Some k"
  using assms by (auto simp: save_api_key_def set_key_def Let_def split: option.splits if_splits)

subsection \<open>The upload directory\<close>

lemma skipped_iff: "skipped ne \<longleftrightarrow> snd ne = Directory \<or> snd ne = Special"
  by (cases "snd ne") (auto simp: skipped_def)

lemma kept_iff:
  "kept E d ne \<longleftrightarrow> skipped ne \<or> unlink_err E (path_join d (fst ne)) \<noteq> None"
  by (simp add: kept_def skipped_def)

lemma skipped_kept: "skipped ne \<Longrightarrow> kept E d ne"
  by (simp add: kept_iff)

lemma is_dir_skipped: "is_dir ne \<Longrightarrow> skipped ne"
  by (simp add: skipped_iff is_dir_def)

lemma clear_loop_frame [simp]:
  "env_file (clear_loop E d ns w) = env_file w"
  "environ (clear_loop E d ns w) = environ w"
  "vector_store_ready (clear_loop E d ns w) = vector_store_ready w"
  by (induction ns arbitrary: w; simp add: Let_def split: option.splits)+

lemma clear_loop_trace:
  assumes "\<And>s. P (St_error s)"
  shows "extends_with P w (clear_loop E d ns w)"
proof (induction ns arbitrary: w)
  case Nil
  show ?case by simp
next
  case (Cons filename rest)
  obtain w1 where step: "clear_loop E d (filename # rest) w = clear_loop E d rest w1"
    and ext: "extends_with P w w1"
  proof (cases "isfile (lookup_entry w filename) \<or> islink (lookup_entry w filename)")
    case False
    then have "clear_loop E d (filename # rest) w = clear_loop E d rest w" by simp
    then show ?thesis using that[of w] by simp
  next
    case True
    show ?thesis
    proof (cases "unlink_err E (path_join d filename)")
      case None
      let ?w1 = "w\<lparr>data_dir := unlink filename (data_dir w)\<rparr>"
      have "clear_loop E d (filename # rest) w = clear_loop E d rest ?w1"
        using True None by (simp add: Let_def)
      moreover have "extends_with P w ?w1" by (simp add: extends_with_iff)
      ultimately show ?thesis using that by blast
    next
      case (Some e)
      let ?w1 = "emit (St_error (''Failed to delete '' @ path_join d filename @ ''. Reason: '' @ msg e)) w"
      have "clear_loop E d (filename # rest) w = clear_loop E d rest ?w1"
        using True Some by (simp add: Let_def)
      moreover have "extends_with P w ?w1" by (simp add: extends_with_emit assms)
      ultimately show ?thesis using that by blast
    qed
  qed
  from ext Cons.IH[of w1] have "extends_with P w (clear_loop E d rest w1)"
    by (rule extends_with_trans)
  with step show ?case by simp
qed

lemma clear_loop_dir:
  "data_dir w = Dir es \<Longrightarrow> distinct (map fst es) \<Longrightarrow>
   data_dir (clear_loop E d ns w) = Dir (filter (\<lambda>ne. fst ne \<notin> set ns \<or> kept E d ne) es)"
proof (induction ns arbitrary: w es)
  case Nil
  then show ?case by simp
next
  case (Cons filename rest)
  let ?look = "map_of es filename"
  show ?case
  proof (cases "(isfile ?look \<or> islink ?look) \<and> unlink_err E (path_join d filename) = None")
    case True
    let ?w1 = "w\<lparr>data_dir := unlink filename (data_dir w)\<rparr>"
    have d1: "data_dir ?w1 = Dir (AList.delete filename es)" using Cons.prems by simp
    have dist: "distinct (map fst (AList.delete filename es))"
      using Cons.prems by (simp add: distinct_delete)
    have step: "clear_loop E d (filename # rest) w = clear_loop E d rest ?w1"
      using True Cons.prems by (simp add: lookup_entry_def Let_def)
    have gone: "\<not> kept E d (filename, e)" if "(filename, e) \<in> set es" for e
    proof -
      from that have "?look = Some e" using Cons.prems by simp
      with True show ?thesis by (cases e) (auto simp: kept_def)
    qed
    have "filter (\<lambda>ne. fst ne \<notin> set rest \<or> kept E d ne) (AList.delete filename es)
        = filter (\<lambda>ne. fst ne \<notin> set (filename # rest) \<or> kept E d ne) es"
      unfolding AList.delete_eq filter_filter
      by (rule filter_cong) (use gone in auto)
    with Cons.IH[OF d1 dist] step show ?thesis by simp
  next
    case False
    have "\<exists>evs. clear_loop E d (filename # rest) w = clear_loop E d rest (w\<lparr>trace := evs\<rparr>)"
      using False
      by (auto simp: lookup_entry_def Cons.prems Let_def emit_def split: option.splits
               intro: exI[of _ "trace w"])
    then obtain evs
      where step: "clear_loop E d (filename # rest) w = clear_loop E d rest (w\<lparr>trace := evs\<rparr>)" ..
    have stays: "kept E d (filename, e)" if "(filename, e) \<in> set es" for e
    proof -
      from that have "?look = Some e" using Cons.prems by simp
      with False show ?thesis by (cases e) (auto simp: kept_def)
    qed
    have "filter (\<lambda>ne. fst ne \<notin> set rest \<or> kept E d ne) es
        = filter (\<lambda>ne. fst ne \<notin> set (filename # rest) \<or> kept E d ne) es"
      by (rule filter_cong) (use stays in auto)
    with Cons.IH[of "w\<lparr>trace := evs\<rparr>" es] Cons.prems step show ?thesis by simp
  qed
qed

lemma clear_loop_listing:
  assumes "data_dir w = Dir es" and "distinct (map fst es)"
  shows "data_dir (clear_loop E d (map fst es) w) = Dir (filter (kept E d) es)"
proof -
  have "filter (\<lambda>ne. fst ne \<notin> set (map fst es) \<or> kept E d ne) es = filter (kept E d) es"
    by (rule filter_cong) auto
  with clear_loop_dir[OF assms, of E d "map fst es"] show ?thesis by simp
qed


lemma filter_update_other:
  "\<not> P (k, v) \<Longrightarrow> (\<And>e. (k, e) \<in> set es \<Longrightarrow> \<not> P (k, e)) \<Longrightarrow>
   filter P (AList.update k v es) = filter P es"
  by (induction es) auto


lemma write_entry_keys: "k \<in> fst ` set es \<Longrightarrow> k \<in> fst ` set (write_entry c b es)"
  by (auto simp: write_entry_def dom_update split: option.splits entry.splits)

text \<open>A write changes no entry that line 48 skips.\<close>

lemma write_entry_skipped:
  assumes "distinct (map fst es)"
  shows "filter skipped (write_entry c b es) = filter skipped es"
proof -
  have upd: "filter skipped (AList.update c (RegularFile b) es) = filter skipped es"
    if "map_of es c = None \<or> (\<exists>old. map_of es c = Some (RegularFile old))"
  proof (rule filter_update_other)
    show "\<not> skipped (c, RegularFile b)" by (simp add: skipped_def)
  next
    fix e assume "(c, e) \<in> set es"
    with assms have "map_of es c = Some e" by simp
    with that show "\<not> skipped (c, e)" by (auto simp: skipped_def)
  qed
  show ?thesis
  proof (cases "map_of es c")
    case None
    with upd show ?thesis by (simp add: write_entry_def)
  next
    case (Some e)
    with upd show ?thesis by (cases e) (simp_all add: write_entry_def)
  qed
qed


lemma written_keys: "k \<in> fst ` set es \<Longrightarrow> k \<in> fst ` set (written E d f es)"
  by (simp add: written_def write_entry_keys split: option.splits)

lemma written_skipped:
  "distinct (map fst es) \<Longrightarrow> filter skipped (written E d f es) = filter skipped es"
  by (simp add: written_def write_entry_skipped split: option.splits)

text \<open>
  A name that is a single path component and is not held by a link or a special file:
  the entry of that name becomes the uploaded file.
\<close>

lemma written_plain:
  assumes "plain_name (name f)"
      and "map_of es (name f) = None \<or> (\<exists>old. map_of es (name f) = Some (RegularFile old))"
  shows "written E d f es = AList.update (name f) (RegularFile (getbuffer f)) es"
  using assms by (auto simp: written_def landing_def write_entry_def)

lemma written_has_name:
  assumes "plain_name (name f)" and "\<not> opens_directory (name f) es"
  shows "name f \<in> fst ` set (written E d f es)"
proof (cases "map_of es (name f)")
  case None
  with assms(1) have "written E d f es = AList.update (name f) (RegularFile (getbuffer f)) es"
    by (simp add: written_plain)
  then show ?thesis by (simp add: dom_update)
next
  case (Some e)
  then have "(name f, e) \<in> set es" by (rule map_of_SomeD)
  then have "name f \<in> fst ` set es" by force
  then show ?thesis by (rule written_keys)
qed

lemma write_upload_frame [simp]:
  "env_file (snd (write_upload E d f w)) = env_file w"
  "environ (snd (write_upload E d f w)) = environ w"
  "vector_store_ready (snd (write_upload E d f w)) = vector_store_ready w"
  "trace (snd (write_upload E d f w)) = trace w"
  by (auto simp: write_upload_def Let_def split: option.splits)

lemma write_upload_shape:
  "(\<exists>e. write_upload E d f w = (Raised e, w))
   \<or> (write_upload E d f w = (Returned, w\<lparr>data_dir := Dir (written E d f (entries_of (data_dir w)))\<rparr>)
      \<and> \<not> opens_directory (name f) (entries_of (data_dir w)))"
  by (cases "open_err E (path_join d (name f))")
     (simp_all add: write_upload_def Let_def)

text \<open>
  What \<open>save_uploaded_file\<close> can do: raise before the loop with the directory as it was
  (or just created), raise at \<open>open\<close> after the loop, or return after the write.
\<close>

lemma save_uploaded_file_shape:
  "(\<exists>e. fst (save_uploaded_file E f d w) = Raised e
        \<and> entries_of (data_dir (snd (save_uploaded_file E f d w))) = entries_of (data_dir w)
        \<and> trace (snd (save_uploaded_file E f d w)) = trace w)
   \<or> (\<exists>e. save_uploaded_file E f d w = (Raised e, after_loop E d w))
   \<or> (save_uploaded_file E f d w
        = (Returned, (after_loop E d w)
             \<lparr>data_dir := Dir (written E d f (entries_of (data_dir (after_loop E d w))))\<rparr>)
      \<and> \<not> opens_directory (name f) (entries_of (data_dir (after_loop E d w))))"
proof (cases "data_dir w")
  case Absent
  show ?thesis
  proof (cases "makedirs_err E d")
    case (Some e)
    with Absent have "save_uploaded_file E f d w = (Raised e, w)"
      by (simp add: save_uploaded_file_def)
    then show ?thesis by simp
  next
    case None
    note mk = this
    show ?thesis
    proof (cases "listdir_err E d")
      case (Some e)
      with Absent mk have "save_uploaded_file E f d w = (Raised e, w\<lparr>data_dir := Dir []\<rparr>)"
        by (simp add: save_uploaded_file_def)
      then show ?thesis using Absent by simp
    next
      case None
      with Absent mk have "save_uploaded_file E f d w = write_upload E d f (after_loop E d w)"
        by (simp add: save_uploaded_file_def after_loop_def)
      then show ?thesis using write_upload_shape[of E d f "after_loop E d w"] by auto
    qed
  qed
next
  case NonDir
  then have "save_uploaded_file E f d w = (Raised (Exception (''[Errno 20] Not a directory: '' @ quoted d)), w)"
    by (simp add: save_uploaded_file_def)
  then show ?thesis by simp
next
  case (Dir es)
  then have same: "w\<lparr>data_dir := Dir es\<rparr> = w" by simp
  show ?thesis
  proof (cases "listdir_err E d")
    case (Some e)
    with Dir have "save_uploaded_file E f d w = (Raised e, w)"
      by (simp add: save_uploaded_file_def)
    then show ?thesis by simp
  next
    case None
    have "after_loop E d w = clear_loop E d (map fst es) w"
      unfolding after_loop_def using Dir by (simp add: same)
    with Dir None have "save_uploaded_file E f d w = write_upload E d f (after_loop E d w)"
      by (simp add: save_uploaded_file_def)
    then show ?thesis using write_upload_shape[of E d f "after_loop E d w"] by auto
  qed
qed

lemma after_loop_frame [simp]:
  "env_file (after_loop E d w) = env_file w"
  "environ (after_loop E d w) = environ w"
  "vector_store_ready (after_loop E d w) = vector_store_ready w"
  by (simp_all add: after_loop_def)

lemma after_loop_trace:
  assumes "\<And>s. P (St_error s)"
  shows "extends_with P w (after_loop E d w)"
proof -
  let ?w0 = "w\<lparr>data_dir := Dir (entries_of (data_dir w))\<rparr>"
  have "extends_with P ?w0 (after_loop E d w)"
    unfolding after_loop_def by (rule clear_loop_trace) (rule assms)
  then show ?thesis by (simp add: extends_with_iff)
qed

lemma after_loop_listing:
  assumes "distinct (map fst (entries_of (data_dir w)))"
  shows "data_dir (after_loop E d w) = Dir (filter (kept E d) (entries_of (data_dir w)))"
  unfolding after_loop_def by (rule clear_loop_listing) (use assms in simp_all)

lemma save_uploaded_file_frame:
  "env_file (snd (save_uploaded_file E f d w)) = env_file w"
  "environ (snd (save_uploaded_file E f d w)) = environ w"
  "vector_store_ready (snd (save_uploaded_file E f d w)) = vector_store_ready w"
  by (auto simp: save_uploaded_file_def split: option.splits node.splits)

lemma save_uploaded_file_trace:
  assumes "\<And>s. P (St_error s)"
  shows "extends_with P w (snd (save_uploaded_file E f d w))"
  using save_uploaded_file_shape[of E f d w] after_loop_trace[of P w E d, OF assms]
  by (auto elim: extends_with_same_trace simp: extends_with_iff)

lemma save_uploaded_file_returned:
  assumes "fst (save_uploaded_file E f d w) = Returned"
      and "distinct (map fst (entries_of (data_dir w)))"
  shows "data_dir (snd (save_uploaded_file E f d w))
           = Dir (written E d f (filter (kept E d) (entries_of (data_dir w))))"
    and "\<not> opens_directory (name f) (filter (kept E d) (entries_of (data_dir w)))"
  using save_uploaded_file_shape[of E f d w] assms after_loop_listing[OF assms(2), of E d]
  by auto

lemma save_uploaded_file_skipped:
  assumes "distinct (map fst (entries_of (data_dir w)))"
  shows "filter skipped (entries_of (data_dir (snd (save_uploaded_file E f d w))))
           = filter skipped (entries_of (data_dir w))"
proof -
  let ?es = "entries_of (data_dir w)"
  have al: "data_dir (after_loop E d w) = Dir (filter (kept E d) ?es)"
    by (rule after_loop_listing[OF assms])
  have fk: "filter skipped (filter (kept E d) ?es) = filter skipped ?es"
    unfolding filter_filter by (rule filter_cong) (auto dest: skipped_kept)
  have dk: "distinct (map fst (filter (kept E d) ?es))"
    using assms by (simp add: distinct_map_filter)
  from save_uploaded_file_shape[of E f d w] show ?thesis
  proof (elim disjE exE conjE)
    fix e assume "entries_of (data_dir (snd (save_uploaded_file E f d w))) = ?es"
    then show ?thesis by simp
  next
    fix e assume "save_uploaded_file E f d w = (Raised e, after_loop E d w)"
    then show ?thesis using al fk by simp
  next
    assume r: "save_uploaded_file E f d w
        = (Returned, (after_loop E d w)
             \<lparr>data_dir := Dir (written E d f (entries_of (data_dir (after_loop E d w))))\<rparr>)"
    have "filter skipped (written E d f (filter (kept E d) ?es)) = filter skipped (filter (kept E d) ?es)"
      by (rule written_skipped[OF dk])
    with r al fk show ?thesis by simp
  qed
qed

lemma filter_is_dir_skipped: "filter is_dir (filter skipped es) = filter is_dir es"
  unfolding filter_filter by (rule filter_cong) (auto dest: is_dir_skipped)

lemma save_uploaded_file_dirs:
  assumes "distinct (map fst (entries_of (data_dir w)))"
  shows "filter is_dir (entries_of (data_dir (snd (save_uploaded_file E f d w))))
           = filter is_dir (entries_of (data_dir w))"
proof -
  have "filter is_dir (filter skipped (entries_of (data_dir (snd (save_uploaded_file E f d w)))))
      = filter is_dir (filter skipped (entries_of (data_dir w)))"
    by (simp only: save_uploaded_file_skipped[OF assms])
  then show ?thesis by (simp only: filter_is_dir_skipped)
qed


lemmas concrete_defs =
  env_ok_def env_build_fails_def env_read_only_def env_down_def file_a_def file_b_def
  file_abs_def world_new_def world_old_file_def world_subdir_def world_fifo_def world_ready_def
  world_keyed_def inputs_idle_def inputs_process_def

lemmas upload_defs =
  save_uploaded_file_def write_upload_def written_def landing_def write_entry_def
  plain_name_def opens_directory_def quoted_def lookup_entry_def path_join_def Let_def emit_def

lemma process_document_body_frame:
  "data_dir (snd (process_document_body E f w)) = data_dir (snd (save_uploaded_file E f ''data'' w))"
  "env_file (snd (process_document_body E f w)) = env_file w"
  "environ (snd (process_document_body E f w)) = environ w"
  "vector_store_ready (snd (process_document_body E f w))
     = (if fst (process_document_body E f w) = Returned then Some True else vector_store_ready w)"
proof -
  obtain a w1 where s: "save_uploaded_file E f ''data'' w = (a, w1)" by (cases "save_uploaded_file E f ''data'' w")
  have fr: "env_file w1 = env_file w" "environ w1 = environ w" "vector_store_ready w1 = vector_store_ready w"
    using save_uploaded_file_frame[of E f "''data''" w] s by simp_all
  show "data_dir (snd (process_document_body E f w)) = data_dir (snd (save_uploaded_file E f ''data'' w))"
    using s by (cases a) (auto simp: process_document_body_def Let_def split: sum.splits option.splits)
  show "env_file (snd (process_document_body E f w)) = env_file w"
    using s fr by (cases a) (auto simp: process_document_body_def Let_def split: sum.splits option.splits)
  show "environ (snd (process_document_body E f w)) = environ w"
    using s fr by (cases a) (auto simp: process_document_body_def Let_def split: sum.splits option.splits)
  show "vector_store_ready (snd (process_document_body E f w))
     = (if fst (process_document_body E f w) = Returned then Some True else vector_store_ready w)"
    using s fr by (cases a) (auto simp: process_document_body_def Let_def split: sum.splits option.splits)
qed

lemma process_document_body_returned:
  assumes "fst (process_document_body E f w) = Returned"
  shows "fst (save_uploaded_file E f ''data'' w) = Returned"
    and "\<exists>docs. load_all_documents E ''data'' (data_dir (snd (save_uploaded_file E f ''data'' w))) = Inr docs
           \<and> FaissVectorStore E ''faiss_store'' = None
           \<and> build_from_documents E ''faiss_store'' docs = None"
proof -
  obtain a w1 where s: "save_uploaded_file E f ''data'' w = (a, w1)" by (cases "save_uploaded_file E f ''data'' w")
  show "fst (save_uploaded_file E f ''data'' w) = Returned"
    using s assms by (cases a) (auto simp: process_document_body_def)
  show "\<exists>docs. load_all_documents E ''data'' (data_dir (snd (save_uploaded_file E f ''data'' w))) = Inr docs
           \<and> FaissVectorStore E ''faiss_store'' = None
           \<and> build_from_documents E ''faiss_store'' docs = None"
    using s assms by (cases a) (auto simp: process_document_body_def Let_def split: sum.splits option.splits)
qed

lemma process_document_body_trace:
  assumes "\<And>s. P (St_error s)" "\<And>s. P (St_write s)" "\<And>s. P (St_success s)"
  shows "extends_with P w (snd (process_document_body E f w))"
proof -
  obtain a w1 where s: "save_uploaded_file E f ''data'' w = (a, w1)" by (cases "save_uploaded_file E f ''data'' w")
  have "extends_with P w w1"
    using save_uploaded_file_trace[of P w E f "''data''"] assms(1) s by simp
  then show ?thesis
    using s assms(2,3)
    by (cases a) (auto simp: process_document_body_def Let_def extends_with_iff split: sum.splits option.splits)
qed

text \<open>
  C10. \<open>save_uploaded_file\<close> deletes only regular files and symbolic links: whether it
  returns or raises, the subdirectories of the upload directory are afterwards the ones
  that were there before, and an entry that is gone was selected by line 48.
\<close>

theorem save_uploaded_file_keeps_subdirectories:
  assumes "distinct (map fst (entries_of (data_dir w)))"
  shows "filter is_dir (entries_of (data_dir (snd (save_uploaded_file E f d w))))
           = filter is_dir (entries_of (data_dir w))
         \<and> (\<forall>ne \<in> set (entries_of (data_dir w)).
               ne \<notin> set (entries_of (data_dir (snd (save_uploaded_file E f d w))))
               \<longrightarrow> isfile (Some (snd ne)) \<or> islink (Some (snd ne)))"
proof
  show "filter is_dir (entries_of (data_dir (snd (save_uploaded_file E f d w))))
           = filter is_dir (entries_of (data_dir w))"
    by (rule save_uploaded_file_dirs[OF assms])
  have sk: "filter skipped (entries_of (data_dir (snd (save_uploaded_file E f d w))))
           = filter skipped (entries_of (data_dir w))"
    by (rule save_uploaded_file_skipped[OF assms])
  show "\<forall>ne \<in> set (entries_of (data_dir w)).
               ne \<notin> set (entries_of (data_dir (snd (save_uploaded_file E f d w))))
               \<longrightarrow> isfile (Some (snd ne)) \<or> islink (Some (snd ne))"
  proof (intro ballI impI)
    fix ne
    assume before: "ne \<in> set (entries_of (data_dir w))"
      and after: "ne \<notin> set (entries_of (data_dir (snd (save_uploaded_file E f d w))))"
    have "\<not> skipped ne"
    proof
      assume "skipped ne"
      with before have "ne \<in> set (filter skipped (entries_of (data_dir w)))" by simp
      with sk have "ne \<in> set (filter skipped (entries_of (data_dir (snd (save_uploaded_file E f d w)))))"
        by simp
      with after show False by simp
    qed
    then show "isfile (Some (snd ne)) \<or> islink (Some (snd ne))"
      by (simp add: skipped_def)
  qed
qed

theorem save_uploaded_file_keeps_subdirectories_witness:
  "distinct (map fst (entries_of (data_dir world_subdir)))
   \<and> filter is_dir (entries_of (data_dir (snd (save_uploaded_file env_ok file_a ''data'' world_subdir))))
       = [(''notes'', Directory)]
   \<and> (''old.pdf'', RegularFile ''%PDF'') \<in> set (entries_of (data_dir world_subdir))
   \<and> (''old.pdf'', RegularFile ''%PDF'')
       \<notin> set (entries_of (data_dir (snd (save_uploaded_file env_ok file_a ''data'' world_subdir))))
   \<and> isfile (Some (RegularFile ''%PDF''))
   \<and> entries_of (data_dir (snd (save_uploaded_file env_ok file_a ''data'' world_subdir)))
       = [(''notes'', Directory), (''a.txt'', RegularFile ''AAA'')]"
proof -
  have h: "distinct (map fst (entries_of (data_dir world_subdir)))"
    by (simp add: concrete_defs)
  show ?thesis
    using h save_uploaded_file_keeps_subdirectories[OF h, of env_ok file_a "''data''"]
    by (simp add: concrete_defs upload_defs is_dir_def)
qed

lemmas process_defs = process_document_body_def process_document_action_def

text \<open>
  C1, as stated, fails: with a subdirectory in the upload directory the action succeeds
  and leaves two entries.
\<close>

theorem process_document_one_entry_counterexample:
  "\<not> (fst (process_document_body env_ok file_a world_subdir) = Returned
       \<longrightarrow> vector_store_ready (snd (process_document_body env_ok file_a world_subdir)) = Some True
           \<and> entries_of (data_dir (snd (process_document_body env_ok file_a world_subdir)))
               = [(name file_a, RegularFile (getbuffer file_a))])"
  by (simp add: concrete_defs upload_defs process_defs)

text \<open>
  C1, amended. When the \<open>try\<close> block of the process-document action completes for an
  upload whose name is a single path component, the flag is true and the upload
  directory holds the entries that the loop kept (subdirectories, special files, entries
  whose unlink raised) with the upload written into them: the entries that line 48
  skips are the ones from before, the uploaded name is in the listing, and it holds the
  uploaded bytes unless a symbolic link or special file of that name was kept. When the
  loop kept nothing, the directory holds exactly the uploaded file.
\<close>

theorem process_document_success:
  assumes "process_document_body E f w = (Returned, w')"
      and "distinct (map fst (entries_of (data_dir w)))"
      and "plain_name (name f)"
  shows "vector_store_ready w' = Some True
         \<and> data_dir w' = Dir (written E ''data'' f (filter (kept E ''data'') (entries_of (data_dir w))))
         \<and> filter skipped (entries_of (data_dir w')) = filter skipped (entries_of (data_dir w))
         \<and> name f \<in> fst ` set (entries_of (data_dir w'))
         \<and> (map_of (filter (kept E ''data'') (entries_of (data_dir w))) (name f) = None
             \<or> (\<exists>old. map_of (filter (kept E ''data'') (entries_of (data_dir w))) (name f)
                        = Some (RegularFile old))
             \<longrightarrow> data_dir w'
                   = Dir (AList.update (name f) (RegularFile (getbuffer f))
                            (filter (kept E ''data'') (entries_of (data_dir w)))))
         \<and> (list_all (\<lambda>ne. \<not> kept E ''data'' ne) (entries_of (data_dir w))
             \<longrightarrow> data_dir w' = Dir [(name f, RegularFile (getbuffer f))])"
proof -
  let ?K = "filter (kept E ''data'') (entries_of (data_dir w))"
  from assms(1) have ret: "fst (process_document_body E f w) = Returned"
    and w': "w' = snd (process_document_body E f w)" by simp_all
  have flag: "vector_store_ready w' = Some True"
    using process_document_body_frame(4)[of E f w] ret w' by simp
  have saved: "fst (save_uploaded_file E f ''data'' w) = Returned"
    by (rule process_document_body_returned(1)[OF ret])
  have same: "data_dir w' = data_dir (snd (save_uploaded_file E f ''data'' w))"
    using process_document_body_frame(1)[of E f w] w' by simp
  have dir: "data_dir w' = Dir (written E ''data'' f ?K)"
    using same save_uploaded_file_returned(1)[OF saved assms(2)] by simp
  have nodir: "\<not> opens_directory (name f) ?K"
    by (rule save_uploaded_file_returned(2)[OF saved assms(2)])
  have sk: "filter skipped (entries_of (data_dir w')) = filter skipped (entries_of (data_dir w))"
    using same save_uploaded_file_skipped[OF assms(2), of E f "''data''"] by simp
  have has: "name f \<in> fst ` set (entries_of (data_dir w'))"
    using dir written_has_name[OF assms(3) nodir, of E "''data''"] by simp
  have upd: "data_dir w' = Dir (AList.update (name f) (RegularFile (getbuffer f)) ?K)"
    if "map_of ?K (name f) = None \<or> (\<exists>old. map_of ?K (name f) = Some (RegularFile old))"
    using dir written_plain[OF assms(3) that, of E "''data''"] by simp
  have one: "data_dir w' = Dir [(name f, RegularFile (getbuffer f))]"
    if "list_all (\<lambda>ne. \<not> kept E ''data'' ne) (entries_of (data_dir w))"
  proof -
    from that have "?K = []" by (simp add: filter_empty_conv list_all_iff)
    with upd show ?thesis by simp
  qed
  from flag dir sk has upd one show ?thesis by blast
qed

theorem process_document_success_witness:
  "process_document_body env_ok file_a world_old_file
     = (Returned, snd (process_document_body env_ok file_a world_old_file))
   \<and> distinct (map fst (entries_of (data_dir world_old_file)))
   \<and> plain_name (name file_a)
   \<and> list_all (\<lambda>ne. \<not> kept env_ok ''data'' ne) (entries_of (data_dir world_old_file))
   \<and> vector_store_ready (snd (process_document_body env_ok file_a world_old_file)) = Some True
   \<and> data_dir (snd (process_document_body env_ok file_a world_old_file))
       = Dir [(''a.txt'', RegularFile ''AAA'')]"
proof -
  have h1: "process_document_body env_ok file_a world_old_file
     = (Returned, snd (process_document_body env_ok file_a world_old_file))"
    by (simp add: concrete_defs upload_defs process_defs)
  have h2: "distinct (map fst (entries_of (data_dir world_old_file)))"
    by (simp add: concrete_defs)
  have h3: "plain_name (name file_a)"
    by (simp add: file_a_def plain_name_def)
  have h4: "list_all (\<lambda>ne. \<not> kept env_ok ''data'' ne) (entries_of (data_dir world_old_file))"
    by (simp add: concrete_defs kept_def)
  from process_document_success[OF h1 h2 h3] h4
  have "vector_store_ready (snd (process_document_body env_ok file_a world_old_file)) = Some True"
    and "data_dir (snd (process_document_body env_ok file_a world_old_file))
          = Dir [(name file_a, RegularFile (getbuffer file_a))]"
    by blast+
  then have "vector_store_ready (snd (process_document_body env_ok file_a world_old_file)) = Some True"
    and "data_dir (snd (process_document_body env_ok file_a world_old_file))
          = Dir [(''a.txt'', RegularFile ''AAA'')]"
    by (simp_all add: file_a_def)
  with h1 h2 h3 h4 show ?thesis by blast
qed






text \<open>
  Two runs of \<open>save_uploaded_file\<close> outside the common case. A FIFO in the upload
  directory is neither a file nor a link for line 48 and stays next to the upload. An
  upload whose name is an absolute path is written where that path leads: with the old
  file deleted, the upload directory is left empty.
\<close>

lemma special_file_stays:
  "save_uploaded_file env_ok file_a ''data'' world_fifo
     = (Returned, world_fifo\<lparr>data_dir := Dir [(''pipe'', Special), (''a.txt'', RegularFile ''AAA'')]\<rparr>)"
  by (simp add: concrete_defs upload_defs)

lemma absolute_name_lands_elsewhere:
  "save_uploaded_file env_ok file_abs ''data'' world_old_file
     = (Returned, world_old_file\<lparr>data_dir := Dir []\<rparr>)"
  by (simp add: concrete_defs upload_defs)

subsection \<open>The click handlers\<close>

lemma save_api_key_action_key:
  assumes "k \<noteq> []"
  shows "save_api_key_action E k w
     = and_then (save_api_key E k (emit (Call_save_api_key k) w))
         (\<lambda>w1. (Returned, emit (St_success ''API Key saved to .env and environment set!'') w1))"
  using assms by (simp add: save_api_key_action_def)

lemma save_api_key_action_shape:
  assumes "k \<noteq> []"
  shows "save_api_key_action E k w
     = (case fst (save_api_key E k (emit (Call_save_api_key k) w)) of
          Returned \<Rightarrow> (Returned, emit (St_success ''API Key saved to .env and environment set!'')
                         (snd (save_api_key E k (emit (Call_save_api_key k) w))))
        | Raised e \<Rightarrow> (Raised e, snd (save_api_key E k (emit (Call_save_api_key k) w))))"
proof -
  obtain a w1 where s: "save_api_key E k (emit (Call_save_api_key k) w) = (a, w1)"
    by (cases "save_api_key E k (emit (Call_save_api_key k) w)")
  then show ?thesis
    unfolding save_api_key_action_key[OF assms] by (cases a) simp_all
qed

text \<open>
  C2. For a non-empty key the save-credential action calls \<open>save_api_key\<close>; the call
  returns exactly when creating \<open>.env\<close> (if it is missing), \<open>set_key\<close> and the assignment
  to \<open>os.environ\<close> do not raise, and then \<open>.env\<close> holds \<open>GROQ_API_KEY\<close> with that value and the
  environment variable \<open>GROQ_API_KEY\<close> has the same value.
\<close>

theorem save_credential_stores_key:
  assumes "k \<noteq> []"
  shows "(fst (save_api_key_action E k w) = Returned
            \<longleftrightarrow> (env_file w = None \<longrightarrow> open_err E ''.env'' = None)
                \<and> set_key_err E ''.env'' = None \<and> putenv_err E ''GROQ_API_KEY'' k = None)
         \<and> Call_save_api_key k \<in> set (new_events w (snd (save_api_key_action E k w)))
         \<and> (fst (save_api_key_action E k w) = Returned
            \<longrightarrow> (\<exists>m. env_file (snd (save_api_key_action E k w)) = Some m
                      \<and> m ''GROQ_API_KEY'' = Some k)
                \<and> environ (snd (save_api_key_action E k w)) ''GROQ_API_KEY'' = Some k)"
proof -
  let ?w0 = "emit (Call_save_api_key k) w"
  let ?r = "save_api_key E k ?w0"
  have tr: "trace (snd ?r) = trace w @ [Call_save_api_key k]"
    using save_api_key_frame(3)[of E k ?w0] by simp
  show ?thesis
  proof (cases "fst ?r")
    case Returned
    then have act: "save_api_key_action E k w
        = (Returned, emit (St_success ''API Key saved to .env and environment set!'') (snd ?r))"
      by (simp add: save_api_key_action_shape[OF assms])
    have "trace (snd (save_api_key_action E k w))
        = trace w @ [Call_save_api_key k, St_success ''API Key saved to .env and environment set!'']"
      using act tr by simp
    then have ev: "Call_save_api_key k \<in> set (new_events w (snd (save_api_key_action E k w)))"
      by (simp add: new_events_def)
    from Returned have ok: "(env_file w = None \<longrightarrow> open_err E ''.env'' = None)
        \<and> set_key_err E ''.env'' = None \<and> putenv_err E ''GROQ_API_KEY'' k = None"
      using save_api_key_returns_iff[of E k ?w0] by simp
    from act ev ok save_api_key_post[OF Returned] show ?thesis by simp
  next
    case (Raised e)
    then have act: "save_api_key_action E k w = (Raised e, snd ?r)"
      by (simp add: save_api_key_action_shape[OF assms])
    then have ev: "Call_save_api_key k \<in> set (new_events w (snd (save_api_key_action E k w)))"
      using tr by (simp add: new_events_def)
    from Raised have "\<not> ((env_file w = None \<longrightarrow> open_err E ''.env'' = None)
        \<and> set_key_err E ''.env'' = None \<and> putenv_err E ''GROQ_API_KEY'' k = None)"
      using save_api_key_returns_iff[of E k ?w0] by simp
    with act ev show ?thesis by simp
  qed
qed

theorem save_credential_stores_key_witness:
  "''gsk_1'' \<noteq> []
   \<and> fst (save_api_key_action env_ok ''gsk_1'' world_new) = Returned
   \<and> (\<exists>m. env_file (snd (save_api_key_action env_ok ''gsk_1'' world_new)) = Some m
          \<and> m ''GROQ_API_KEY'' = Some ''gsk_1'')
   \<and> environ (snd (save_api_key_action env_ok ''gsk_1'' world_new)) ''GROQ_API_KEY'' = Some ''gsk_1''"
proof -
  have h: "''gsk_1'' \<noteq> []" by simp
  have ok: "(env_file world_new = None \<longrightarrow> open_err env_ok ''.env'' = None)
      \<and> set_key_err env_ok ''.env'' = None \<and> putenv_err env_ok ''GROQ_API_KEY'' ''gsk_1'' = None"
    by (simp add: env_ok_def)
  from save_credential_stores_key[OF h, of env_ok world_new] ok h show ?thesis by blast
qed

text \<open>
  C6. A click on \<open>Save API Key\<close> with an empty input renders the error message and nothing
  else: \<open>save_api_key\<close> is not called, and \<open>.env\<close> and the environment are as they were.
\<close>

theorem empty_credential_rejected:
  assumes "save_clicked inp" and "api_key_input inp = []"
  shows "fst (sidebar_api_key E inp w) = Returned
         \<and> new_events w (snd (sidebar_api_key E inp w))
             = [St_text_input ''Enter Groq API Key'', St_button ''Save API Key'',
                St_error ''Please enter a valid key.'']
         \<and> (\<forall>k. Call_save_api_key k \<notin> set (new_events w (snd (sidebar_api_key E inp w))))
         \<and> env_file (snd (sidebar_api_key E inp w)) = env_file w
         \<and> environ (snd (sidebar_api_key E inp w)) = environ w"
  using assms
  by (simp add: sidebar_api_key_def save_api_key_action_def Let_def new_events_def)

theorem empty_credential_rejected_witness:
  "save_clicked (inputs_idle\<lparr>save_clicked := True\<rparr>)
   \<and> api_key_input (inputs_idle\<lparr>save_clicked := True\<rparr>) = []
   \<and> fst (sidebar_api_key env_ok (inputs_idle\<lparr>save_clicked := True\<rparr>) world_ready) = Returned
   \<and> environ (snd (sidebar_api_key env_ok (inputs_idle\<lparr>save_clicked := True\<rparr>) world_ready))
        ''GROQ_API_KEY'' = Some ''gsk''
   \<and> env_file (snd (sidebar_api_key env_ok (inputs_idle\<lparr>save_clicked := True\<rparr>) world_ready)) = None
   \<and> new_events world_ready (snd (sidebar_api_key env_ok (inputs_idle\<lparr>save_clicked := True\<rparr>) world_ready))
       = [St_text_input ''Enter Groq API Key'', St_button ''Save API Key'',
          St_error ''Please enter a valid key.'']"
proof -
  have h1: "save_clicked (inputs_idle\<lparr>save_clicked := True\<rparr>)" by simp
  have h2: "api_key_input (inputs_idle\<lparr>save_clicked := True\<rparr>) = []"
    by (simp add: inputs_idle_def)
  have e: "environ world_ready ''GROQ_API_KEY'' = Some ''gsk''" "env_file world_ready = None"
    by (simp_all add: world_ready_def world_new_def)
  from empty_credential_rejected[OF h1 h2, of env_ok world_ready] h1 h2 e
  show ?thesis by simp
qed

text \<open>
  C7. A click on \<open>Get Answer\<close> with an empty query renders the warning and nothing else:
  \<open>RAGSearch\<close> is not constructed and \<open>search_and_summarize\<close> is not called.
\<close>

theorem empty_query_warns:
  assumes "answer_clicked inp" and "query inp = []"
  shows "fst (get_answer_button E inp w) = Returned
         \<and> new_events w (snd (get_answer_button E inp w))
             = [St_text_input ''Enter your question:'', St_button ''Get Answer'',
                St_warning ''Please enter a query.'']
         \<and> Call_RAGSearch \<notin> set (new_events w (snd (get_answer_button E inp w)))
         \<and> (\<forall>q n. Call_search_and_summarize q n
                \<notin> set (new_events w (snd (get_answer_button E inp w))))"
  using assms
  by (simp add: get_answer_button_def get_answer_action_def Let_def new_events_def)

theorem empty_query_warns_witness:
  "answer_clicked (inputs_idle\<lparr>answer_clicked := True\<rparr>)
   \<and> query (inputs_idle\<lparr>answer_clicked := True\<rparr>) = []
   \<and> fst (get_answer_button env_ok (inputs_idle\<lparr>answer_clicked := True\<rparr>) world_ready) = Returned
   \<and> new_events world_ready (snd (get_answer_button env_ok (inputs_idle\<lparr>answer_clicked := True\<rparr>) world_ready))
       = [St_text_input ''Enter your question:'', St_button ''Get Answer'',
          St_warning ''Please enter a query.'']
   \<and> Call_RAGSearch
       \<notin> set (new_events world_ready
                (snd (get_answer_button env_ok (inputs_idle\<lparr>answer_clicked := True\<rparr>) world_ready)))"
proof -
  have h1: "answer_clicked (inputs_idle\<lparr>answer_clicked := True\<rparr>)" by simp
  have h2: "query (inputs_idle\<lparr>answer_clicked := True\<rparr>) = []"
    by (simp add: inputs_idle_def)
  from empty_query_warns[OF h1 h2, of env_ok world_ready] h1 h2
  show ?thesis by simp
qed

text \<open>
  The handlers and their \<open>try\<close> blocks. The process-document action and the get-answer
  action wrap their work in \<open>try\<close> and \<open>except Exception\<close> (lines 81 to 96 and 115 to
  127), so they always return and render what was raised with \<open>st.error\<close>. The
  save-credential action (lines 65 to 70) calls \<open>save_api_key\<close> outside any \<open>try\<close>: what
  \<open>save_api_key\<close> raises leaves the handler.
\<close>

lemma handlers_catch:
  "fst (process_document_action E f w) = Returned
   \<and> fst (process_document_button E inp w) = Returned
   \<and> fst (get_answer_action E q w) = Returned
   \<and> fst (get_answer_button E inp w) = Returned
   \<and> (fst (process_document_body E f w) = Raised e
        \<longrightarrow> snd (process_document_action E f w)
              = emit (St_error (''Error processing document: '' @ msg e))
                  (snd (process_document_body E f w)))
   \<and> (q \<noteq> [] \<and> fst (get_answer_body E q w) = Raised e
        \<longrightarrow> snd (get_answer_action E q w)
              = emit (St_error (''An error occurred: '' @ msg e)) (snd (get_answer_body E q w)))
   \<and> (k \<noteq> [] \<and> fst (save_api_key E k (emit (Call_save_api_key k) w)) = Raised e
        \<longrightarrow> save_api_key_action E k w
              = (Raised e, snd (save_api_key E k (emit (Call_save_api_key k) w))))"
proof -
  have a: "fst (process_document_action E f w) = Returned" for f w
    by (simp add: process_document_action_def)
  have b: "fst (process_document_button E inp w) = Returned"
    by (simp add: process_document_button_def Let_def a split: option.splits)
  have c: "fst (get_answer_action E q w) = Returned" for q w
    by (simp add: get_answer_action_def)
  have d: "fst (get_answer_button E inp w) = Returned"
    by (simp add: get_answer_button_def Let_def c)
  have e1: "snd (process_document_action E f w)
              = emit (St_error (''Error processing document: '' @ msg e))
                  (snd (process_document_body E f w))"
    if "fst (process_document_body E f w) = Raised e"
    using that by (cases "process_document_body E f w") (simp add: process_document_action_def)
  have e2: "snd (get_answer_action E q w)
              = emit (St_error (''An error occurred: '' @ msg e)) (snd (get_answer_body E q w))"
    if "q \<noteq> []" "fst (get_answer_body E q w) = Raised e"
    using that by (cases "get_answer_body E q w") (simp add: get_answer_action_def)
  have e3: "save_api_key_action E k w
              = (Raised e, snd (save_api_key E k (emit (Call_save_api_key k) w)))"
    if "k \<noteq> []" "fst (save_api_key E k (emit (Call_save_api_key k) w)) = Raised e"
    using that by (simp add: save_api_key_action_shape)
  from a b c d e1 e2 e3 show ?thesis by blast
qed

text \<open>
  C9 asks that every user-triggered action catch the exceptions raised in it and render
  them as an error message. The save-credential action does not. With a \<open>.env\<close> that
  cannot be written, \<open>set_key\<close> raises inside \<open>save_api_key\<close>; the exception leaves the
  handler, no \<open>st.error\<close> is rendered for it, and the run of the script ends in the
  sidebar, before the main pane.
\<close>

theorem save_credential_propagates:
  "fst (save_api_key_action env_read_only ''gsk_1'' world_new)
     = Raised (Exception ''[Errno 13] Permission denied'')
   \<and> fst (script env_read_only (inputs_idle\<lparr>api_key_input := ''gsk_1'', save_clicked := True\<rparr>) world_new)
     = Raised (Exception ''[Errno 13] Permission denied'')
   \<and> trace (snd (script env_read_only (inputs_idle\<lparr>api_key_input := ''gsk_1'', save_clicked := True\<rparr>)
                    world_new))
     = [St_header ''Configuration'', St_text_input ''Enter Groq API Key'',
        St_button ''Save API Key'', Call_save_api_key ''gsk_1'']"
  by (simp add: concrete_defs script_def sidebar_api_key_def save_api_key_action_def
        save_api_key_def init_session_state_def Let_def emit_def)

subsection \<open>One run and a session\<close>

lemma other_event_simps [simp]:
  "other_event (St_error s)" "other_event (St_warning s)" "other_event (St_info s)"
  "other_event (St_success s)" "other_event (St_write s)" "other_event (St_markdown s)"
  "other_event (St_header s)" "other_event (St_subheader s)" "other_event (St_title s)"
  "other_event (St_file_uploader s)" "other_event (Call_save_api_key s)"
  "other_event (St_text_input s) = (s \<noteq> ''Enter your question:'')"
  "other_event (St_button s) = (s \<noteq> ''Get Answer'')"
  by (simp_all add: other_event_def)

lemma extends_with_weaken:
  "extends_with P w w' \<Longrightarrow> extends_with (\<lambda>ev. True) w w'"
  by (auto simp: extends_with_iff list_all_iff)

lemma init_session_state_fields [simp]:
  "trace (init_session_state w) = trace w"
  "data_dir (init_session_state w) = data_dir w"
  "environ (init_session_state w) = environ w"
  "env_file (init_session_state w) = env_file w"
  "vector_store_ready (init_session_state w)
     = (case vector_store_ready w of None \<Rightarrow> Some False | Some b \<Rightarrow> Some b)"
  by (auto simp: init_session_state_def split: option.splits)

lemma save_api_key_action_frame:
  "vector_store_ready (snd (save_api_key_action E k w)) = vector_store_ready w"
  "extends_with other_event w (snd (save_api_key_action E k w))"
proof -
  let ?r = "save_api_key E k (emit (Call_save_api_key k) w)"
  have fr: "vector_store_ready (snd ?r) = vector_store_ready w"
    "trace (snd ?r) = trace w @ [Call_save_api_key k]"
    using save_api_key_frame(2,3)[where E=E and k=k and w="emit (Call_save_api_key k) w"] by simp_all
  show "vector_store_ready (snd (save_api_key_action E k w)) = vector_store_ready w"
  proof (cases "k = []")
    case True
    then show ?thesis by (simp add: save_api_key_action_def)
  next
    case False
    then show ?thesis
      using fr by (cases "fst ?r") (simp_all add: save_api_key_action_shape)
  qed
  show "extends_with other_event w (snd (save_api_key_action E k w))"
  proof (cases "k = []")
    case True
    then show ?thesis by (simp add: save_api_key_action_def extends_with_iff)
  next
    case False
    then show ?thesis
      using fr by (cases "fst ?r") (simp_all add: save_api_key_action_shape extends_with_iff)
  qed
qed

lemma sidebar_api_key_frame:
  "vector_store_ready (snd (sidebar_api_key E inp w)) = vector_store_ready w"
  "extends_with other_event w (snd (sidebar_api_key E inp w))"
proof -
  let ?w2 = "emit (St_button ''Save API Key'') (emit (St_text_input ''Enter Groq API Key'') w)"
  have base: "extends_with other_event w ?w2" by (simp add: extends_with_iff)
  show "vector_store_ready (snd (sidebar_api_key E inp w)) = vector_store_ready w"
    by (simp add: sidebar_api_key_def Let_def save_api_key_action_frame(1))
  show "extends_with other_event w (snd (sidebar_api_key E inp w))"
  proof (cases "save_clicked inp")
    case True
    then have "snd (sidebar_api_key E inp w) = snd (save_api_key_action E (api_key_input inp) ?w2)"
      by (simp add: sidebar_api_key_def Let_def)
    with base save_api_key_action_frame(2)[where w="?w2" and E=E and k="api_key_input inp"] show ?thesis
      by (auto intro: extends_with_trans)
  next
    case False
    with base show ?thesis by (simp add: sidebar_api_key_def Let_def)
  qed
qed

lemma process_document_action_frame:
  "fst (process_document_action E f w) = Returned"
  "vector_store_ready (snd (process_document_action E f w))
     = (if fst (process_document_body E f w) = Returned then Some True else vector_store_ready w)"
  "extends_with other_event w (snd (process_document_action E f w))"
proof -
  obtain a wb where b: "process_document_body E f w = (a, wb)"
    by (cases "process_document_body E f w")
  have flag: "vector_store_ready wb = (if a = Returned then Some True else vector_store_ready w)"
    using process_document_body_frame(4)[where E=E and f=f and w=w] b by simp
  have ext: "extends_with other_event w wb"
    using process_document_body_trace[where P=other_event and w=w and E=E and f=f] b by simp
  show "fst (process_document_action E f w) = Returned"
    by (simp add: process_document_action_def)
  show "vector_store_ready (snd (process_document_action E f w))
     = (if fst (process_document_body E f w) = Returned then Some True else vector_store_ready w)"
    using b flag by (cases a) (simp_all add: process_document_action_def)
  show "extends_with other_event w (snd (process_document_action E f w))"
    using b ext by (cases a) (simp_all add: process_document_action_def extends_with_emit)
qed

lemma process_document_button_frame:
  "fst (process_document_button E inp w) = Returned"
  "vector_store_ready (snd (process_document_button E inp w)) = Some True
   \<or> vector_store_ready (snd (process_document_button E inp w)) = vector_store_ready w"
  "vector_store_ready (snd (process_document_button E inp w)) \<noteq> vector_store_ready w
   \<Longrightarrow> process_clicked inp
       \<and> (\<exists>f w0. uploaded inp = Some f \<and> fst (process_document_body E f w0) = Returned)"
  "extends_with other_event w (snd (process_document_button E inp w))"
proof -
  let ?w1 = "emit (St_file_uploader ''Upload a document'') w"
  let ?w2 = "emit (St_button ''Process Document'') ?w1"
  have base: "extends_with other_event w ?w1" "extends_with other_event w ?w2"
    by (simp_all add: extends_with_iff)
  show "fst (process_document_button E inp w) = Returned"
    by (simp add: process_document_button_def Let_def process_document_action_frame(1)
          split: option.splits)
  show "vector_store_ready (snd (process_document_button E inp w)) = Some True
   \<or> vector_store_ready (snd (process_document_button E inp w)) = vector_store_ready w"
    by (simp add: process_document_button_def Let_def process_document_action_frame(2)
          split: option.splits)
  show "process_clicked inp
       \<and> (\<exists>f w0. uploaded inp = Some f \<and> fst (process_document_body E f w0) = Returned)"
    if "vector_store_ready (snd (process_document_button E inp w)) \<noteq> vector_store_ready w"
  proof (cases "uploaded inp")
    case None
    with that show ?thesis by (simp add: process_document_button_def Let_def)
  next
    case (Some f)
    show ?thesis
    proof (cases "process_clicked inp")
      case False
      with Some that show ?thesis by (simp add: process_document_button_def Let_def)
    next
      case True
      with Some have "snd (process_document_button E inp w) = snd (process_document_action E f ?w2)"
        by (simp add: process_document_button_def Let_def)
      with that have "fst (process_document_body E f ?w2) = Returned"
        using process_document_action_frame(2)[where E=E and f=f and w="?w2"] by (auto split: if_splits)
      with True Some show ?thesis by blast
    qed
  qed
  show "extends_with other_event w (snd (process_document_button E inp w))"
  proof (cases "uploaded inp")
    case None
    with base show ?thesis by (simp add: process_document_button_def Let_def)
  next
    case (Some f)
    show ?thesis
    proof (cases "process_clicked inp")
      case False
      with Some base show ?thesis by (simp add: process_document_button_def Let_def)
    next
      case True
      with Some have "snd (process_document_button E inp w) = snd (process_document_action E f ?w2)"
        by (simp add: process_document_button_def Let_def)
      with base(2) process_document_action_frame(3)[where E=E and f=f and w="?w2"] show ?thesis
        by (auto intro: extends_with_trans)
    qed
  qed
qed

lemma get_answer_body_frame:
  "vector_store_ready (snd (get_answer_body E q w)) = vector_store_ready w"
  "environ (snd (get_answer_body E q w)) = environ w"
  "extends_with (\<lambda>ev. True) w (snd (get_answer_body E q w))"
  by (auto simp: get_answer_body_def Let_def extends_with_iff split: option.splits sum.splits)

lemma get_answer_action_frame:
  "fst (get_answer_action E q w) = Returned"
  "vector_store_ready (snd (get_answer_action E q w)) = vector_store_ready w"
  "environ (snd (get_answer_action E q w)) = environ w"
  "extends_with (\<lambda>ev. True) w (snd (get_answer_action E q w))"
proof -
  obtain a wb where b: "get_answer_body E q w = (a, wb)" by (cases "get_answer_body E q w")
  have fr: "vector_store_ready wb = vector_store_ready w" "environ wb = environ w"
    "extends_with (\<lambda>ev. True) w wb"
    using get_answer_body_frame[where E=E and q=q and w=w] b by simp_all
  show "fst (get_answer_action E q w) = Returned"
    by (simp add: get_answer_action_def)
  show "vector_store_ready (snd (get_answer_action E q w)) = vector_store_ready w"
    using b fr by (cases a) (simp_all add: get_answer_action_def)
  show "environ (snd (get_answer_action E q w)) = environ w"
    using b fr by (cases a) (simp_all add: get_answer_action_def)
  show "extends_with (\<lambda>ev. True) w (snd (get_answer_action E q w))"
    using b fr by (cases a) (auto simp: get_answer_action_def extends_with_iff)
qed

lemma get_answer_button_frame:
  "fst (get_answer_button E inp w) = Returned"
  "vector_store_ready (snd (get_answer_button E inp w)) = vector_store_ready w"
  "environ (snd (get_answer_button E inp w)) = environ w"
  "extends_with (\<lambda>ev. True) w (snd (get_answer_button E inp w))"
proof -
  let ?w2 = "emit (St_button ''Get Answer'') (emit (St_text_input ''Enter your question:'') w)"
  have base: "extends_with (\<lambda>ev. True) w ?w2" by (simp add: extends_with_iff)
  show "fst (get_answer_button E inp w) = Returned"
    by (simp add: get_answer_button_def Let_def get_answer_action_frame(1))
  show "vector_store_ready (snd (get_answer_button E inp w)) = vector_store_ready w"
    by (simp add: get_answer_button_def Let_def get_answer_action_frame(2))
  show "environ (snd (get_answer_button E inp w)) = environ w"
    by (simp add: get_answer_button_def Let_def get_answer_action_frame(3))
  show "extends_with (\<lambda>ev. True) w (snd (get_answer_button E inp w))"
    using base get_answer_action_frame(4)[where E=E and q="query inp" and w="?w2"]
    by (auto simp: get_answer_button_def Let_def intro: extends_with_trans)
qed

lemma load_dotenv_fields [simp]:
  "trace (load_dotenv w) = trace w"
  "vector_store_ready (load_dotenv w) = vector_store_ready w"
  "data_dir (load_dotenv w) = data_dir w"
  by (simp_all add: load_dotenv_def split: option.splits)

text \<open>
  The gate of lines 104 to 108: the main pane leaves the flag alone, and either the
  credential is present and the flag is true, or it renders nothing of the query
  interface.
\<close>

lemma main_content_frame:
  "vector_store_ready (snd (main_content E inp w)) = vector_store_ready w"
  "environ (snd (main_content E inp w)) = environ (load_dotenv w)"
  "extends_with (\<lambda>ev. True) w (snd (main_content E inp w))"
  "(credential_present (load_dotenv w) \<and> vector_store_ready w = Some True)
   \<or> extends_with other_event w (snd (main_content E inp w))"
proof -
  let ?w1 = "emit (St_markdown ''Ask questions based on the documents you uploaded.'')
                 (emit (St_title ''RAG Summarizer'') w)"
  let ?w2 = "load_dotenv ?w1"
  have env2: "environ ?w2 = environ (load_dotenv w)"
    by (simp add: load_dotenv_def split: option.splits)
  have cred: "credential_present ?w2 = credential_present (load_dotenv w)"
    by (simp add: credential_present_def env2)
  have base: "extends_with other_event w ?w2" by (simp add: extends_with_iff)
  consider (nokey) "\<not> credential_present ?w2"
    | (unset) "credential_present ?w2" "vector_store_ready w = None"
    | (notready) "credential_present ?w2" "vector_store_ready w = Some False"
    | (ready) "credential_present ?w2" "vector_store_ready w = Some True"
    by (cases "vector_store_ready w") auto
  then have "vector_store_ready (snd (main_content E inp w)) = vector_store_ready w
    \<and> environ (snd (main_content E inp w)) = environ (load_dotenv w)
    \<and> extends_with (\<lambda>ev. True) w (snd (main_content E inp w))
    \<and> ((credential_present (load_dotenv w) \<and> vector_store_ready w = Some True)
       \<or> extends_with other_event w (snd (main_content E inp w)))"
  proof cases
    case nokey
    then have "snd (main_content E inp w)
        = emit (St_warning ''Please enter and save your Groq API Key in the sidebar to proceed.'') ?w2"
      by (simp add: main_content_def Let_def)
    then show ?thesis using env2 by (simp add: extends_with_iff)
  next
    case unset
    then have "snd (main_content E inp w) = ?w2"
      by (simp add: main_content_def Let_def)
    then show ?thesis using env2 by (simp add: extends_with_iff)
  next
    case notready
    then have "snd (main_content E inp w)
        = emit (St_info ''Please upload and process a document in the sidebar to start.'') ?w2"
      by (simp add: main_content_def Let_def)
    then show ?thesis using env2 by (simp add: extends_with_iff)
  next
    case ready
    then have eq: "snd (main_content E inp w) = snd (get_answer_button E inp ?w2)"
      by (simp add: main_content_def Let_def)
    have "extends_with (\<lambda>ev. True) w ?w2" by (simp add: extends_with_iff)
    with get_answer_button_frame(4)[where E=E and inp=inp and w="?w2"]
    have "extends_with (\<lambda>ev. True) w (snd (get_answer_button E inp ?w2))"
      by (auto intro: extends_with_trans)
    with eq ready cred env2 show ?thesis
      by (simp add: get_answer_button_frame(2,3))
  qed
  then show "vector_store_ready (snd (main_content E inp w)) = vector_store_ready w"
    "environ (snd (main_content E inp w)) = environ (load_dotenv w)"
    "extends_with (\<lambda>ev. True) w (snd (main_content E inp w))"
    "(credential_present (load_dotenv w) \<and> vector_store_ready w = Some True)
     \<or> extends_with other_event w (snd (main_content E inp w))"
    by blast+
qed

text \<open>
  A run either stops in the sidebar, at an exception of \<open>save_api_key\<close>, or reaches the
  main pane; up to there nothing of the query interface is rendered, and the flag is
  the initialised one unless the process-document action set it.
\<close>

lemma script_shape:
  "\<exists>w2. extends_with other_event w w2
      \<and> (vector_store_ready w2 = Some True
          \<or> vector_store_ready w2 = vector_store_ready (init_session_state w))
      \<and> (vector_store_ready w2 \<noteq> vector_store_ready (init_session_state w)
          \<longrightarrow> process_clicked inp
              \<and> (\<exists>f w0. uploaded inp = Some f \<and> fst (process_document_body E f w0) = Returned))
      \<and> ((\<exists>e. script E inp w = (Raised e, w2)) \<or> script E inp w = main_content E inp w2)"
proof -
  let ?w0 = "emit (St_header ''Configuration'') (init_session_state w)"
  have e0: "extends_with other_event w ?w0" by (simp add: extends_with_iff)
  obtain a w1 where s: "sidebar_api_key E inp ?w0 = (a, w1)"
    by (cases "sidebar_api_key E inp ?w0")
  have f1: "vector_store_ready w1 = vector_store_ready (init_session_state w)"
    using sidebar_api_key_frame(1)[where E=E and inp=inp and w="?w0"] s by simp
  have e1: "extends_with other_event w w1"
    using sidebar_api_key_frame(2)[where E=E and inp=inp and w="?w0"] s e0 by (auto intro: extends_with_trans)
  show ?thesis
  proof (cases a)
    case (Raised e)
    with s have "script E inp w = (Raised e, w1)" by (simp add: script_def)
    with f1 e1 show ?thesis by blast
  next
    case Returned
    let ?w1' = "emit (St_header ''Data Source'') (emit (St_markdown ''---'') w1)"
    obtain b w2 where p: "process_document_button E inp ?w1' = (b, w2)"
      by (cases "process_document_button E inp ?w1'")
    have b: "b = Returned" using process_document_button_frame(1)[where E=E and inp=inp and w="?w1'"] p by simp
    have e1': "extends_with other_event w ?w1'"
      using e1 by (simp add: extends_with_emit)
    have e2: "extends_with other_event w w2"
      using process_document_button_frame(4)[where E=E and inp=inp and w="?w1'"] p e1'
      by (auto intro: extends_with_trans)
    have f2: "vector_store_ready w2 = Some True
        \<or> vector_store_ready w2 = vector_store_ready (init_session_state w)"
      using process_document_button_frame(2)[where E=E and inp=inp and w="?w1'"] p f1 by simp
    have f3: "process_clicked inp
        \<and> (\<exists>f w0. uploaded inp = Some f \<and> fst (process_document_body E f w0) = Returned)"
      if "vector_store_ready w2 \<noteq> vector_store_ready (init_session_state w)"
      using process_document_button_frame(3)[where E=E and inp=inp and w="?w1'"] p f1 that by simp
    have "script E inp w = main_content E inp w2"
      using s Returned p b by (simp add: script_def)
    with e2 f2 f3 show ?thesis by blast
  qed
qed

lemma script_extends: "extends_with (\<lambda>ev. True) w (snd (script E inp w))"
proof -
  from script_shape[where E=E and inp=inp and w=w] obtain w2 where e: "extends_with other_event w w2"
    and r: "(\<exists>e. script E inp w = (Raised e, w2)) \<or> script E inp w = main_content E inp w2"
    by blast
  from e have e': "extends_with (\<lambda>ev. True) w w2" by (rule extends_with_weaken)
  from r show ?thesis
  proof
    assume "\<exists>e. script E inp w = (Raised e, w2)"
    with e' show ?thesis by auto
  next
    assume "script E inp w = main_content E inp w2"
    with e' main_content_frame(3)[where E=E and inp=inp and w=w2] show ?thesis
      by (auto intro: extends_with_trans)
  qed
qed

lemma script_flag:
  "vector_store_ready (snd (script E inp w)) = Some True
   \<or> vector_store_ready (snd (script E inp w)) = vector_store_ready (init_session_state w)"
  "vector_store_ready (snd (script E inp w)) \<noteq> vector_store_ready (init_session_state w)
   \<Longrightarrow> process_clicked inp
       \<and> (\<exists>f w0. uploaded inp = Some f \<and> fst (process_document_body E f w0) = Returned)"
proof -
  from script_shape[where E=E and inp=inp and w=w] obtain w2
    where f: "vector_store_ready w2 = Some True
          \<or> vector_store_ready w2 = vector_store_ready (init_session_state w)"
      and g: "vector_store_ready w2 \<noteq> vector_store_ready (init_session_state w)
          \<longrightarrow> process_clicked inp
              \<and> (\<exists>f w0. uploaded inp = Some f \<and> fst (process_document_body E f w0) = Returned)"
      and r: "(\<exists>e. script E inp w = (Raised e, w2)) \<or> script E inp w = main_content E inp w2"
    by blast
  have same: "vector_store_ready (snd (script E inp w)) = vector_store_ready w2"
    using r main_content_frame(1)[where E=E and inp=inp and w=w2] by auto
  show "vector_store_ready (snd (script E inp w)) = Some True
   \<or> vector_store_ready (snd (script E inp w)) = vector_store_ready (init_session_state w)"
    using f same by simp
  show "process_clicked inp
       \<and> (\<exists>f w0. uploaded inp = Some f \<and> fst (process_document_body E f w0) = Returned)"
    if "vector_store_ready (snd (script E inp w)) \<noteq> vector_store_ready (init_session_state w)"
    using that g same by simp
qed

lemma script_flag_stays:
  assumes "vector_store_ready w = Some True"
  shows "vector_store_ready (snd (script E inp w)) = Some True"
  using script_flag(1)[where E=E and inp=inp and w=w] assms by auto

lemma script_gate:
  assumes "list_ex query_event (new_events w (snd (script E inp w)))"
  shows "credential_present (snd (script E inp w))"
    and "vector_store_ready (snd (script E inp w)) = Some True"
proof -
  from script_shape[where E=E and inp=inp and w=w] obtain w2 where e: "extends_with other_event w w2"
    and r: "(\<exists>e. script E inp w = (Raised e, w2)) \<or> script E inp w = main_content E inp w2"
    by blast
  have quiet: "\<not> list_ex query_event (new_events w w')" if "extends_with other_event w w'" for w'
    using extends_with_new_events[OF that] by (auto simp: list_ex_iff list_all_iff other_event_def)
  have main: "script E inp w = main_content E inp w2"
    using r assms quiet[OF e] by auto
  have "\<not> extends_with other_event w (snd (main_content E inp w2))"
    using quiet assms main by auto
  then have "\<not> extends_with other_event w2 (snd (main_content E inp w2))"
    using e extends_with_trans by blast
  then have g: "credential_present (load_dotenv w2)" "vector_store_ready w2 = Some True"
    using main_content_frame(4)[where E=E and inp=inp and w=w2] by auto
  show "credential_present (snd (script E inp w))"
    using g(1) main main_content_frame(2)[where E=E and inp=inp and w=w2] by (simp add: credential_present_def)
  show "vector_store_ready (snd (script E inp w)) = Some True"
    using g(2) main main_content_frame(1)[where E=E and inp=inp and w=w2] by simp
qed

lemma script_no_query:
  assumes "vector_store_ready w \<noteq> Some True \<longrightarrow> \<not> list_ex query_event (trace w)"
      and "vector_store_ready (snd (script E inp w)) \<noteq> Some True"
  shows "\<not> list_ex query_event (trace (snd (script E inp w)))"
proof -
  let ?w' = "snd (script E inp w)"
  have "vector_store_ready w \<noteq> Some True"
    using assms(2) script_flag_stays[where E=E and inp=inp and w=w] by auto
  with assms(1) have old: "\<not> list_ex query_event (trace w)" by simp
  have new: "\<not> list_ex query_event (new_events w ?w')"
    using script_gate(2)[where E=E and inp=inp and w=w] assms(2) by auto
  from script_extends[where E=E and inp=inp and w=w]
  obtain evs where evs: "trace ?w' = trace w @ evs"
    by (auto simp: extends_with_iff)
  then have "new_events w ?w' = evs" by (rule new_events_append)
  with new have "\<not> list_ex query_event evs" by simp
  with old show ?thesis unfolding evs by (auto simp: list_ex_iff)
qed

lemma session_flag_stays:
  "vector_store_ready w = Some True \<Longrightarrow> vector_store_ready (session rs w) = Some True"
proof (induction rs arbitrary: w)
  case Nil
  then show ?case by simp
next
  case (Cons r rs)
  from Cons.prems have "vector_store_ready (snd (script (fst r) (snd r) w)) = Some True"
    by (rule script_flag_stays)
  then have "vector_store_ready (session rs (snd (script (fst r) (snd r) w))) = Some True"
    by (rule Cons.IH)
  then show ?case by simp
qed

lemma session_no_query:
  assumes "vector_store_ready w \<noteq> Some True \<longrightarrow> \<not> list_ex query_event (trace w)"
  shows "vector_store_ready (session rs w) \<noteq> Some True
         \<longrightarrow> \<not> list_ex query_event (trace (session rs w))"
  using assms
proof (induction rs arbitrary: w)
  case Nil
  then show ?case by simp
next
  case (Cons r rs)
  let ?w1 = "snd (script (fst r) (snd r) w)"
  have "vector_store_ready ?w1 \<noteq> Some True \<longrightarrow> \<not> list_ex query_event (trace ?w1)"
    using script_no_query[OF Cons.prems] by blast
  from Cons.IH[OF this] show ?case by simp
qed

lemmas script_defs =
  script_def init_session_state_def sidebar_api_key_def save_api_key_action_def save_api_key_def
  set_key_def process_document_button_def main_content_def load_dotenv_def
  credential_present_def get_answer_button_def get_answer_action_def get_answer_body_def
  new_events_def fresh_session_def

text \<open>
  C3. In a run, the query input, the \<open>Get Answer\<close> button and the calls behind it appear
  only when the credential is present and the session flag is true. In a session that
  starts fresh, as long as the flag is not true (no process-document action has
  succeeded), the trace holds nothing of the query interface: neither widget was
  rendered, and \<open>RAGSearch\<close> and \<open>search_and_summarize\<close> were not called.
\<close>

theorem query_ui_gated:
  "(list_ex query_event (new_events w (snd (script E inp w)))
      \<longrightarrow> credential_present (snd (script E inp w))
          \<and> vector_store_ready (snd (script E inp w)) = Some True)
   \<and> (fresh_session w0 \<and> vector_store_ready (session rs w0) \<noteq> Some True
      \<longrightarrow> \<not> list_ex query_event (trace (session rs w0)))"
proof (intro conjI impI)
  assume q: "list_ex query_event (new_events w (snd (script E inp w)))"
  show "credential_present (snd (script E inp w))" by (rule script_gate(1)[OF q])
  show "vector_store_ready (snd (script E inp w)) = Some True" by (rule script_gate(2)[OF q])
next
  assume h: "fresh_session w0 \<and> vector_store_ready (session rs w0) \<noteq> Some True"
  then have "vector_store_ready w0 \<noteq> Some True \<longrightarrow> \<not> list_ex query_event (trace w0)"
    by (simp add: fresh_session_def)
  from session_no_query[OF this, of rs] h
  show "\<not> list_ex query_event (trace (session rs w0))" by simp
qed

theorem query_ui_gated_witness:
  "list_ex query_event (new_events world_keyed (snd (script env_ok inputs_process world_keyed)))
   \<and> credential_present (snd (script env_ok inputs_process world_keyed))
   \<and> vector_store_ready (snd (script env_ok inputs_process world_keyed)) = Some True
   \<and> fresh_session world_keyed
   \<and> vector_store_ready
        (session [(env_build_fails, inputs_process),
                  (env_ok, inputs_idle\<lparr>query := ''why'', answer_clicked := True\<rparr>)] world_keyed)
       = Some False
   \<and> \<not> list_ex query_event
        (trace (session [(env_build_fails, inputs_process),
                         (env_ok, inputs_idle\<lparr>query := ''why'', answer_clicked := True\<rparr>)]
                  world_keyed))"
proof -
  let ?rs = "[(env_build_fails, inputs_process),
              (env_ok, inputs_idle\<lparr>query := ''why'', answer_clicked := True\<rparr>)]"
  have h1: "list_ex query_event (new_events world_keyed (snd (script env_ok inputs_process world_keyed)))"
    by (simp add: concrete_defs script_defs upload_defs process_defs)
  have h2: "fresh_session world_keyed"
    by (simp add: concrete_defs fresh_session_def)
  have h3: "vector_store_ready (session ?rs world_keyed) = Some False"
    by (simp add: concrete_defs script_defs upload_defs process_defs)
  from query_ui_gated[of world_keyed env_ok inputs_process world_keyed ?rs] h1 h2 h3
  show ?thesis by simp
qed

text \<open>
  The \<open>try\<close> block completes exactly when each of its statements returns:
  \<open>save_uploaded_file\<close>, \<open>load_all_documents\<close> on the directory it left, the constructor,
  and \<open>build_from_documents\<close> on the loaded chunks.
\<close>

lemma process_document_body_returns_iff:
  "fst (process_document_body E f w) = Returned \<longleftrightarrow>
     fst (save_uploaded_file E f ''data'' w) = Returned
     \<and> (\<exists>docs. load_all_documents E ''data'' (data_dir (snd (save_uploaded_file E f ''data'' w)))
                 = Inr docs
               \<and> FaissVectorStore E ''faiss_store'' = None
               \<and> build_from_documents E ''faiss_store'' docs = None)"
proof -
  obtain a w1 where s: "save_uploaded_file E f ''data'' w = (a, w1)"
    by (cases "save_uploaded_file E f ''data'' w")
  show ?thesis
  proof (cases a)
    case (Raised e)
    with s show ?thesis by (simp add: process_document_body_def)
  next
    case Returned
    with s show ?thesis
      by (auto simp: process_document_body_def Let_def split: sum.splits option.splits)
  qed
qed

text \<open>The flag at the end of a run, exactly.\<close>

lemma script_flag_exact:
  "vector_store_ready (snd (script E inp w))
     = (if build_succeeds E inp w then Some True else vector_store_ready (init_session_state w))"
proof -
  let ?w0 = "emit (St_header ''Configuration'') (init_session_state w)"
  obtain a w1 where s: "sidebar_api_key E inp ?w0 = (a, w1)"
    by (cases "sidebar_api_key E inp ?w0")
  have f1: "vector_store_ready w1 = vector_store_ready (init_session_state w)"
    using sidebar_api_key_frame(1)[where E=E and inp=inp and w="?w0"] s by simp
  show ?thesis
  proof (cases a)
    case (Raised e)
    with s have "script E inp w = (Raised e, w1)" by (simp add: script_def)
    moreover from s Raised have "\<not> build_succeeds E inp w" by (simp add: build_succeeds_def)
    ultimately show ?thesis using f1 by simp
  next
    case Returned
    let ?w1' = "emit (St_header ''Data Source'') (emit (St_markdown ''---'') w1)"
    let ?w2 = "snd (process_document_button E inp ?w1')"
    obtain b w2 where p: "process_document_button E inp ?w1' = (b, w2)"
      by (cases "process_document_button E inp ?w1'")
    have "b = Returned"
      using process_document_button_frame(1)[where E=E and inp=inp and w="?w1'"] p by simp
    with s Returned p have "script E inp w = main_content E inp w2"
      by (simp add: script_def)
    moreover from p have "w2 = ?w2" by simp
    ultimately have "script E inp w = main_content E inp ?w2" by simp
    then have run: "vector_store_ready (snd (script E inp w)) = vector_store_ready ?w2"
      by (simp add: main_content_frame(1))
    have pw: "process_world E inp w
        = emit (St_button ''Process Document'') (emit (St_file_uploader ''Upload a document'') ?w1')"
      using s by (simp add: process_world_def)
    show ?thesis
    proof (cases "uploaded inp")
      case None
      then have "vector_store_ready ?w2 = vector_store_ready w1"
        by (simp add: process_document_button_def Let_def)
      moreover from None have "\<not> build_succeeds E inp w" by (simp add: build_succeeds_def)
      ultimately show ?thesis using run f1 by simp
    next
      case (Some f)
      show ?thesis
      proof (cases "process_clicked inp")
        case False
        with Some have "vector_store_ready ?w2 = vector_store_ready w1"
          by (simp add: process_document_button_def Let_def)
        moreover from False have "\<not> build_succeeds E inp w" by (simp add: build_succeeds_def)
        ultimately show ?thesis using run f1 by simp
      next
        case True
        with Some pw have "?w2 = snd (process_document_action E f (process_world E inp w))"
          by (simp add: process_document_button_def Let_def)
        then have "vector_store_ready ?w2
            = (if fst (process_document_body E f (process_world E inp w)) = Returned then Some True
               else vector_store_ready (process_world E inp w))"
          by (simp add: process_document_action_frame(2))
        moreover have "vector_store_ready (process_world E inp w) = vector_store_ready w1"
          by (simp add: pw)
        moreover have "build_succeeds E inp w
            \<longleftrightarrow> fst (process_document_body E f (process_world E inp w)) = Returned"
          using s Returned Some True by (simp add: build_succeeds_def)
        ultimately show ?thesis using run f1 by simp
      qed
    qed
  qed
qed

lemma script_flag_true_iff:
  "vector_store_ready (snd (script E inp w)) = Some True
     \<longleftrightarrow> vector_store_ready w = Some True \<or> build_succeeds E inp w"
  by (cases "vector_store_ready w") (auto simp: script_flag_exact)

lemma session_flag_true_iff:
  "vector_store_ready (session rs w) = Some True
     \<longleftrightarrow> vector_store_ready w = Some True \<or> any_build_succeeds rs w"
proof (induction rs arbitrary: w)
  case Nil
  show ?case by simp
next
  case (Cons r rs)
  have "vector_store_ready (session (r # rs) w) = Some True
      \<longleftrightarrow> vector_store_ready (snd (script (fst r) (snd r) w)) = Some True
          \<or> any_build_succeeds rs (snd (script (fst r) (snd r) w))"
    using Cons.IH[of "snd (script (fst r) (snd r) w)"] by simp
  also have "\<dots> \<longleftrightarrow> vector_store_ready w = Some True \<or> any_build_succeeds (r # rs) w"
    by (auto simp: script_flag_true_iff)
  finally show ?case .
qed

text \<open>
  C4. The flag is initialised false where the session has none (lines 16 and 17) and
  left alone where it has one. The process-document action ends with the flag true
  exactly when its \<open>try\<close> block ran to the end, that is when \<open>save_uploaded_file\<close>,
  \<open>load_all_documents\<close>, the constructor and \<open>build_from_documents\<close> on the loaded chunks all
  returned, and with the flag it found otherwise. A run ends with the flag true exactly
  when that happened in it, and with the initialised flag otherwise. So after any
  session the flag is true exactly when it was true before or some run built the index:
  nothing sets it back to false, neither a failed build nor a new upload.
\<close>

theorem flag_set_only_by_build:
  "(vector_store_ready w = None \<longrightarrow> vector_store_ready (init_session_state w) = Some False)
   \<and> (vector_store_ready w \<noteq> None
       \<longrightarrow> vector_store_ready (init_session_state w) = vector_store_ready w)
   \<and> vector_store_ready (snd (process_document_action E f w))
       = (if fst (process_document_body E f w) = Returned then Some True else vector_store_ready w)
   \<and> (fst (process_document_body E f w) = Returned \<longleftrightarrow>
        fst (save_uploaded_file E f ''data'' w) = Returned
        \<and> (\<exists>docs. load_all_documents E ''data'' (data_dir (snd (save_uploaded_file E f ''data'' w)))
                    = Inr docs
                  \<and> FaissVectorStore E ''faiss_store'' = None
                  \<and> build_from_documents E ''faiss_store'' docs = None))
   \<and> vector_store_ready (snd (script E inp w))
       = (if build_succeeds E inp w then Some True else vector_store_ready (init_session_state w))
   \<and> (vector_store_ready (session rs w) = Some True
        \<longleftrightarrow> vector_store_ready w = Some True \<or> any_build_succeeds rs w)"
proof -
  have a: "vector_store_ready w = None \<longrightarrow> vector_store_ready (init_session_state w) = Some False"
    by simp
  have b: "vector_store_ready w \<noteq> None
       \<longrightarrow> vector_store_ready (init_session_state w) = vector_store_ready w"
    by (cases "vector_store_ready w") simp_all
  note c = process_document_action_frame(2)[where E=E and f=f and w=w]
  note d = process_document_body_returns_iff[where E=E and f=f and w=w]
  note e = script_flag_exact[where E=E and inp=inp and w=w]
  note g = session_flag_true_iff[where rs=rs and w=w]
  from a b c d e g show ?thesis by blast
qed

theorem flag_set_only_by_build_witness:
  "vector_store_ready world_new = None
   \<and> vector_store_ready (init_session_state world_new) = Some False
   \<and> vector_store_ready world_ready \<noteq> None
   \<and> vector_store_ready (init_session_state world_ready) = Some True
   \<and> fst (process_document_body env_ok file_a world_new) = Returned
   \<and> vector_store_ready (snd (process_document_action env_ok file_a world_new)) = Some True
   \<and> fst (process_document_body env_build_fails file_a world_old_file) \<noteq> Returned
   \<and> vector_store_ready (snd (process_document_action env_build_fails file_a world_old_file))
       = Some False
   \<and> build_succeeds env_ok inputs_process world_new
   \<and> vector_store_ready (snd (script env_ok inputs_process world_new)) = Some True
   \<and> \<not> build_succeeds env_build_fails inputs_process world_new
   \<and> vector_store_ready (snd (script env_build_fails inputs_process world_new)) = Some False
   \<and> any_build_succeeds [(env_ok, inputs_process), (env_build_fails, inputs_process)] world_new
   \<and> vector_store_ready
        (session [(env_ok, inputs_process), (env_build_fails, inputs_process)] world_new)
       = Some True"
proof -
  let ?rs = "[(env_ok, inputs_process), (env_build_fails, inputs_process)]"
  have h1: "vector_store_ready world_new = None" by (simp add: world_new_def)
  have h2: "vector_store_ready world_ready \<noteq> None" "vector_store_ready world_ready = Some True"
    by (simp_all add: world_ready_def world_new_def)
  have h3: "fst (process_document_body env_ok file_a world_new) = Returned"
    by (simp add: concrete_defs upload_defs process_defs)
  have h4: "fst (process_document_body env_build_fails file_a world_old_file) \<noteq> Returned"
    "vector_store_ready world_old_file = Some False"
    by (simp_all add: concrete_defs upload_defs process_defs)
  have h5: "build_succeeds env_ok inputs_process world_new"
    by (simp add: concrete_defs build_succeeds_def process_world_def script_defs upload_defs
          process_defs)
  have h6: "\<not> build_succeeds env_build_fails inputs_process world_new"
    by (simp add: concrete_defs build_succeeds_def process_world_def script_defs upload_defs
          process_defs)
  have h7: "any_build_succeeds ?rs world_new"
    using h5 by simp
  note t1 = flag_set_only_by_build[of world_new env_ok file_a inputs_process ?rs]
  note t2 = flag_set_only_by_build[of world_ready env_ok file_a inputs_process ?rs]
  note t3 = flag_set_only_by_build[of world_old_file env_build_fails file_a inputs_process ?rs]
  note t4 = flag_set_only_by_build[of world_new env_build_fails file_a inputs_process ?rs]
  from t1 h1 h3 h5 h7
  have c1: "vector_store_ready (init_session_state world_new) = Some False"
    "vector_store_ready (snd (process_document_action env_ok file_a world_new)) = Some True"
    "vector_store_ready (snd (script env_ok inputs_process world_new)) = Some True"
    "vector_store_ready (session ?rs world_new) = Some True"
    by simp_all
  from t2 h2 have c2: "vector_store_ready (init_session_state world_ready) = Some True"
    by simp
  from t3 h4
  have c3: "vector_store_ready (snd (process_document_action env_build_fails file_a world_old_file))
      = Some False"
    by simp
  from t4 h6 c1(1)
  have c4: "vector_store_ready (snd (script env_build_fails inputs_process world_new)) = Some False"
    by simp
  from h1 h2 h3 h4 h5 h6 h7 c1 c2 c3 c4 show ?thesis by simp
qed

end
